theory Spec2Isabelle
  imports Complex_Main "HOL-Library.Multiset" "HOL-Library.AList"
begin

section \<open>Values of the host language\<close>

text \<open>
  Numbers are IEEE doubles: a finite value, one of the two infinities, or NaN. A finite
  double is a real number; negative zero is identified with zero, since nothing in
  \<^verbatim>\<open>lib/Utils.js\<close> can tell them apart (no division, no \<^verbatim>\<open>Object.is\<close>).
\<close>

datatype jsnum = NaN | NegInfinity | Finite real | PosInfinity

text \<open>
  Cell data and sort keys: \<^verbatim>\<open>undefined\<close>, \<^verbatim>\<open>null\<close>, booleans, numbers, strings and
  plain objects. A plain object is known by its reference only; it converts to the
  string \<^verbatim>\<open>[object Object]\<close>.
\<close>

datatype jsval =
    JUndefined
  | JNull
  | JBool bool
  | JNum jsnum
  | JStr string
  | JObj nat

text \<open>\<^verbatim>\<open>x == null\<close> holds for \<^verbatim>\<open>null\<close> and \<^verbatim>\<open>undefined\<close> and for nothing else.\<close>

fun isNullish :: "jsval \<Rightarrow> bool" where
  "isNullish JUndefined = True"
| "isNullish JNull = True"
| "isNullish _ = False"

text \<open>
  Subtraction of doubles. The difference of two finite doubles is rounded by the host,
  which changes neither its sign nor whether it is zero; the rounding is left out, as the
  code and the host's sort read a difference only through \<^verbatim>\<open>=== 0\<close>, \<^verbatim>\<open>< 0\<close> and \<^verbatim>\<open>> 0\<close>.
\<close>

fun num_minus :: "jsnum \<Rightarrow> jsnum \<Rightarrow> jsnum" where
  "num_minus NaN _ = NaN"
| "num_minus _ NaN = NaN"
| "num_minus PosInfinity PosInfinity = NaN"
| "num_minus NegInfinity NegInfinity = NaN"
| "num_minus PosInfinity _ = PosInfinity"
| "num_minus NegInfinity _ = NegInfinity"
| "num_minus (Finite x) PosInfinity = NegInfinity"
| "num_minus (Finite x) NegInfinity = PosInfinity"
| "num_minus (Finite x) (Finite y) = Finite (x - y)"

text \<open>\<^verbatim>\<open>x === y\<close> on numbers: NaN is not equal to itself.\<close>

fun num_strict_eq :: "jsnum \<Rightarrow> jsnum \<Rightarrow> bool" where
  "num_strict_eq NaN _ = False"
| "num_strict_eq _ NaN = False"
| "num_strict_eq x y = (x = y)"

text \<open>\<^verbatim>\<open>x < y\<close> on numbers: false as soon as one side is NaN.\<close>

fun num_less :: "jsnum \<Rightarrow> jsnum \<Rightarrow> bool" where
  "num_less NaN _ = False"
| "num_less _ NaN = False"
| "num_less PosInfinity _ = False"
| "num_less _ NegInfinity = False"
| "num_less NegInfinity _ = True"
| "num_less _ PosInfinity = True"
| "num_less (Finite x) (Finite y) = (x < y)"

text \<open>The sign tests that a sort applies to the number its comparator returns.\<close>

definition isNegative :: "jsnum \<Rightarrow> bool" where
  "isNegative v = num_less v (Finite 0)"

definition isPositive :: "jsnum \<Rightarrow> bool" where
  "isPositive v = num_less (Finite 0) v"

text \<open>An array index as a number, and the difference \<^verbatim>\<open>a.index - b.index\<close>.\<close>

definition index_minus :: "nat \<Rightarrow> nat \<Rightarrow> jsnum" where
  "index_minus i j = num_minus (Finite (real i)) (Finite (real j))"

text \<open>Strings are compared by \<^verbatim>\<open><\<close> code unit by code unit.\<close>

fun string_less :: "string \<Rightarrow> string \<Rightarrow> bool" where
  "string_less [] [] = False"
| "string_less [] (d # ds) = True"
| "string_less (c # cs) [] = False"
| "string_less (c # cs) (d # ds) =
     (if (of_char c :: nat) < of_char d then True
      else if (of_char d :: nat) < of_char c then False
      else string_less cs ds)"

section \<open>Columns, rows and the environment\<close>

text \<open>
  Modelled from the spec: the module \<^verbatim>\<open>./DataType\<close> is not part of the sources. The spec
  gives the data types as the enumeration Number, NumberOrdinal, String and others, the
  others being treated alike.
\<close>

datatype DataType =
    DataType_Number
  | DataType_NumberOrdinal
  | DataType_String
  | DataType_Other string

text \<open>
  Modelled from the spec: the module \<^verbatim>\<open>./SortDirection\<close> is not part of the sources. The
  spec gives the sort direction as the enumeration Ascending, Descending.
\<close>

datatype SortDirection = Ascending | Descending

text \<open>
  A row record is read by key only: \<^verbatim>\<open>rowData[key]\<close> is the row applied to the key, and
  a key the row does not have gives \<^verbatim>\<open>undefined\<close>.
\<close>

type_synonym row = "string \<Rightarrow> jsval"

text \<open>
  The field \<^verbatim>\<open>value\<close> of a column: absent (\<^verbatim>\<open>undefined\<close> or \<^verbatim>\<open>null\<close>), a key into the
  row, or a function. A function is held by reference, as in the host language; what it
  computes is given by the environment below.
\<close>

datatype columnValue =
    ValueUndefined
  | ValueNull
  | ValueKey string
  | ValueFunction nat

text \<open>
  A column definition. The fields \<^verbatim>\<open>sortValue\<close>, \<^verbatim>\<open>type\<close> and \<^verbatim>\<open>sortType\<close> are
  \<open>None\<close> when they are \<^verbatim>\<open>undefined\<close> or \<^verbatim>\<open>null\<close>; a \<^verbatim>\<open>sortValue\<close> that is set is a
  function, held by reference.
\<close>

record column =
  column_id :: string
  column_value :: columnValue
  column_sortValue :: "nat option"
  column_type :: "DataType option"
  column_sortType :: "DataType option"

text \<open>
  What the module takes from outside itself: the host's string and number routines
  (\<^verbatim>\<open>parseFloat\<close> and \<^verbatim>\<open>Number\<close> on a string, \<^verbatim>\<open>String\<close> on a number,
  \<^verbatim>\<open>toLowerCase\<close>, \<^verbatim>\<open>localeCompare\<close>), the functions behind the references stored in
  the columns, and whether \<^verbatim>\<open>process.env.NODE_ENV\<close> is \<^verbatim>\<open>'production'\<close>. The
  functions behind the references are taken to return a value and to change nothing.
\<close>

record env =
  parseFloatString :: "string \<Rightarrow> jsnum"
  toNumberString :: "string \<Rightarrow> jsnum"
  numberToString :: "jsnum \<Rightarrow> string"
  toLowerCase :: "string \<Rightarrow> string"
  localeCompare :: "string \<Rightarrow> string \<Rightarrow> int"
  callValue :: "nat \<Rightarrow> row \<Rightarrow> nat \<Rightarrow> row list \<Rightarrow> column list \<Rightarrow> jsval"
  callSortValue :: "nat \<Rightarrow> jsval \<Rightarrow> row \<Rightarrow> jsval"
  production :: bool

text \<open>\<^verbatim>\<open>String(v)\<close>.\<close>

fun toString :: "env \<Rightarrow> jsval \<Rightarrow> string" where
  "toString e JUndefined = ''undefined''"
| "toString e JNull = ''null''"
| "toString e (JBool b) = (if b then ''true'' else ''false'')"
| "toString e (JNum n) = numberToString e n"
| "toString e (JStr s) = s"
| "toString e (JObj r) = ''[object Object]''"

text \<open>
  \<^verbatim>\<open>parseFloat(v)\<close> converts its argument to a string and reads the longest numeric
  prefix. On a number this gives the number back: the host prints a double so that
  reading the text returns it.
\<close>

fun parseFloat :: "env \<Rightarrow> jsval \<Rightarrow> jsnum" where
  "parseFloat e (JNum n) = n"
| "parseFloat e v = parseFloatString e (toString e v)"

text \<open>\<^verbatim>\<open>x === y\<close>: same type and same value; objects by reference.\<close>

fun strict_eq :: "jsval \<Rightarrow> jsval \<Rightarrow> bool" where
  "strict_eq JUndefined JUndefined = True"
| "strict_eq JNull JNull = True"
| "strict_eq (JBool a) (JBool b) = (a = b)"
| "strict_eq (JNum m) (JNum n) = num_strict_eq m n"
| "strict_eq (JStr s) (JStr t) = (s = t)"
| "strict_eq (JObj r) (JObj q) = (r = q)"
| "strict_eq _ _ = False"

text \<open>
  \<^verbatim>\<open>x < y\<close>: both sides are made primitive (an object becomes its string); two strings
  are compared as strings, anything else as numbers.
\<close>

fun toPrimitive :: "jsval \<Rightarrow> jsval" where
  "toPrimitive (JObj r) = JStr ''[object Object]''"
| "toPrimitive v = v"

fun toNumber :: "env \<Rightarrow> jsval \<Rightarrow> jsnum" where
  "toNumber e JUndefined = NaN"
| "toNumber e JNull = Finite 0"
| "toNumber e (JBool b) = (if b then Finite 1 else Finite 0)"
| "toNumber e (JNum n) = n"
| "toNumber e (JStr s) = toNumberString e s"
| "toNumber e (JObj r) = toNumberString e ''[object Object]''"

definition js_less_than :: "env \<Rightarrow> jsval \<Rightarrow> jsval \<Rightarrow> bool" where
  "js_less_than e x y =
     (case (toPrimitive x, toPrimitive y) of
        (JStr s, JStr t) \<Rightarrow> string_less s t
      | (px, py) \<Rightarrow> num_less (toNumber e px) (toNumber e py))"

section \<open>Cell data and sort values\<close>

text \<open>\<^verbatim>\<open>getCellData(column, rowData, rowNumber, tableData, columns)\<close>\<close>

definition getCellData ::
  "env \<Rightarrow> column \<Rightarrow> row \<Rightarrow> nat \<Rightarrow> row list \<Rightarrow> column list \<Rightarrow> jsval" where
  "getCellData e column rowData rowNumber tableData columns =
     (case column_value column of
        ValueFunction f \<Rightarrow> callValue e f rowData rowNumber tableData columns
      | ValueKey k \<Rightarrow> rowData k
      | ValueNull \<Rightarrow> rowData (column_id column)
      | ValueUndefined \<Rightarrow> rowData (column_id column))"

text \<open>\<^verbatim>\<open>getSortValueFromCellData(cellData, column, rowData)\<close>\<close>

definition getSortValueFromCellData :: "env \<Rightarrow> jsval \<Rightarrow> column \<Rightarrow> row \<Rightarrow> jsval" where
  "getSortValueFromCellData e cellData column rowData =
     (case column_sortValue column of
        Some f \<Rightarrow> callSortValue e f cellData rowData
      | None \<Rightarrow> cellData)"

text \<open>\<^verbatim>\<open>getSortValue(column, rowData, rowNumber, tableData, columns)\<close>\<close>

definition getSortValue ::
  "env \<Rightarrow> column \<Rightarrow> row \<Rightarrow> nat \<Rightarrow> row list \<Rightarrow> column list \<Rightarrow> jsval" where
  "getSortValue e column rowData rowNumber tableData columns =
     getSortValueFromCellData e
       (getCellData e column rowData rowNumber tableData columns) column rowData"

text \<open>
  \<^verbatim>\<open>getColumnById(columns, columnId)\<close>: \<^verbatim>\<open>Array.prototype.find\<close> walks the array from
  index 0 and returns the first element the test accepts, \<^verbatim>\<open>undefined\<close> (here \<open>None\<close>)
  when it accepts none.
\<close>

fun getColumnById :: "column list \<Rightarrow> string \<Rightarrow> column option" where
  "getColumnById [] columnId = None"
| "getColumnById (column # columns) columnId =
     (if column_id column = columnId then Some column else getColumnById columns columnId)"

section \<open>Comparators\<close>

text \<open>The items that \<^verbatim>\<open>sortData\<close> sorts: \<^verbatim>\<open>{ rowData, index, sortValue }\<close>.\<close>

record sortItem =
  rowData :: row
  index :: nat
  sortValue :: jsval

definition numberComparator :: "env \<Rightarrow> sortItem \<Rightarrow> sortItem \<Rightarrow> jsnum" where
  "numberComparator e a b =
     (let aSortValue = sortValue a; bSortValue = sortValue b in
      if isNullish aSortValue \<and> isNullish bSortValue then index_minus (index a) (index b)
      else if isNullish aSortValue then Finite 1
      else if isNullish bSortValue then Finite (- 1)
      else
        let difference = num_minus (parseFloat e aSortValue) (parseFloat e bSortValue) in
        if num_strict_eq difference (Finite 0) then index_minus (index a) (index b)
        else difference)"

definition stringComparator :: "env \<Rightarrow> sortItem \<Rightarrow> sortItem \<Rightarrow> jsnum" where
  "stringComparator e a b =
     (let aSortValue = sortValue a; bSortValue = sortValue b in
      if isNullish aSortValue \<and> isNullish bSortValue then index_minus (index a) (index b)
      else if isNullish aSortValue then Finite (- 1)
      else if isNullish bSortValue then Finite 1
      else
        let result = localeCompare e (toLowerCase e (toString e aSortValue))
                                     (toLowerCase e (toString e bSortValue)) in
        if result = 0 then index_minus (index a) (index b)
        else Finite (real_of_int result))"

definition defaultComparator :: "env \<Rightarrow> sortItem \<Rightarrow> sortItem \<Rightarrow> jsnum" where
  "defaultComparator e a b =
     (let aSortValue = sortValue a; bSortValue = sortValue b in
      if isNullish aSortValue \<and> isNullish bSortValue then index_minus (index a) (index b)
      else if isNullish aSortValue then Finite (- 1)
      else if isNullish bSortValue then Finite 1
      else if strict_eq aSortValue bSortValue then index_minus (index a) (index b)
      else if js_less_than e aSortValue bSortValue then Finite (- 1) else Finite 1)"

text \<open>
  \<^verbatim>\<open>getSortComparator(type)\<close>: the \<^verbatim>\<open>switch\<close> on the type; a type that is
  \<^verbatim>\<open>undefined\<close> or \<^verbatim>\<open>null\<close> falls to \<^verbatim>\<open>default\<close> like any other.
\<close>

fun getSortComparator :: "env \<Rightarrow> DataType option \<Rightarrow> sortItem \<Rightarrow> sortItem \<Rightarrow> jsnum" where
  "getSortComparator e (Some DataType_Number) = numberComparator e"
| "getSortComparator e (Some DataType_NumberOrdinal) = numberComparator e"
| "getSortComparator e (Some DataType_String) = stringComparator e"
| "getSortComparator e _ = defaultComparator e"

section \<open>Sorting the rows\<close>

text \<open>
  \<^verbatim>\<open>Array.prototype.sort(comparator)\<close> belongs to the host. It reads the number the
  comparator returns only through its sign, NaN counting as zero. When the comparator is
  consistent, the language standard fixes the result; when it is not, the order of the
  result is left to the host. The sort is modelled by the insertion sort below: it
  returns the elements it was given, and what the standard fixes whenever the comparator
  is consistent on them (\<open>consistentOn\<close> below). For an inconsistent comparator it
  returns one of the orders a host may return, not the one a given host does return;
  no property of the order of the result is stated for that case.
\<close>

fun insertSorted :: "('a \<Rightarrow> 'a \<Rightarrow> jsnum) \<Rightarrow> 'a \<Rightarrow> 'a list \<Rightarrow> 'a list" where
  "insertSorted comparator x [] = [x]"
| "insertSorted comparator x (y # ys) =
     (if isPositive (comparator x y) then y # insertSorted comparator x ys
      else x # y # ys)"

fun arraySort :: "('a \<Rightarrow> 'a \<Rightarrow> jsnum) \<Rightarrow> 'a list \<Rightarrow> 'a list" where
  "arraySort comparator [] = []"
| "arraySort comparator (x # xs) = insertSorted comparator x (arraySort comparator xs)"

text \<open>
  A comparator is consistent on a list of sort items when, for two items of different
  index, it returns a negative or a positive number, positive one way exactly when
  negative the other way, and when its negative results chain. This is the consistency
  the language standard asks of a comparator, for one that leaves no two items tied. The
  standard then fixes the result of the sort: the arrangement of the items in which the
  comparator is negative from each item to every later one.
\<close>

definition consistentOn :: "(sortItem \<Rightarrow> sortItem \<Rightarrow> jsnum) \<Rightarrow> sortItem list \<Rightarrow> bool" where
  "consistentOn comparator items =
     ((\<forall>a \<in> set items. \<forall>b \<in> set items. index a \<noteq> index b \<longrightarrow>
         (isNegative (comparator a b) \<or> isPositive (comparator a b))
         \<and> (isPositive (comparator a b) = isNegative (comparator b a)))
      \<and> (\<forall>a \<in> set items. \<forall>b \<in> set items. \<forall>c \<in> set items.
           isNegative (comparator a b) \<and> isNegative (comparator b c)
           \<longrightarrow> isNegative (comparator a c)))"

text \<open>What the module writes with \<^verbatim>\<open>console.warn\<close>.\<close>

datatype diagnostic =
    NoColumnFound string "column list"
  | DuplicateColumnId string "nat list" "column list"

text \<open>
  The array that \<^verbatim>\<open>sortData\<close> returns is either the very array it was given as
  \<^verbatim>\<open>data\<close> or an array it has built itself.
\<close>

datatype returnedArray = InputArray | NewArray "row list"

fun rowsOf :: "row list \<Rightarrow> returnedArray \<Rightarrow> row list" where
  "rowsOf data InputArray = data"
| "rowsOf data (NewArray rows) = rows"

text \<open>
  The first \<^verbatim>\<open>data.map\<close> of \<^verbatim>\<open>sortData\<close>: one sort item per row, with the row's
  position and its sort value.
\<close>

definition toSortItems :: "env \<Rightarrow> column \<Rightarrow> row list \<Rightarrow> column list \<Rightarrow> sortItem list" where
  "toSortItems e column data columns =
     map (\<lambda>(index, rowData).
            \<lparr>rowData = rowData, index = index,
             sortValue = getSortValue e column rowData index data columns\<rparr>)
         (zip [0..<length data] data)"

text \<open>
  \<^verbatim>\<open>sortData(data, columnId, sortDirection, columns)\<close>, returning what it has written
  with \<^verbatim>\<open>console.warn\<close> and the array.
\<close>

definition sortData ::
  "env \<Rightarrow> row list \<Rightarrow> string \<Rightarrow> SortDirection \<Rightarrow> column list
     \<Rightarrow> diagnostic list \<times> returnedArray" where
  "sortData e data columnId sortDirection columns =
     (case getColumnById columns columnId of
        None \<Rightarrow>
          (if production e then [] else [NoColumnFound columnId columns], InputArray)
      | Some column \<Rightarrow>
          let sortType = (case column_sortType column of
                            None \<Rightarrow> column_type column
                          | Some t \<Rightarrow> Some t);
              comparator = getSortComparator e sortType;
              sortedData = map rowData (arraySort comparator (toSortItems e column data columns))
          in ([], NewArray (if sortDirection = Descending then rev sortedData
                            else sortedData)))"

text \<open>
  \<^verbatim>\<open>sortData\<close> again, with the host's sort as a parameter: the same body, run on whatever
  host it is given. \<open>sortData\<close> above is this function on the model of the sort.
\<close>

definition sortDataWith ::
  "((sortItem \<Rightarrow> sortItem \<Rightarrow> jsnum) \<Rightarrow> sortItem list \<Rightarrow> sortItem list)
     \<Rightarrow> env \<Rightarrow> row list \<Rightarrow> string \<Rightarrow> SortDirection \<Rightarrow> column list
     \<Rightarrow> diagnostic list \<times> returnedArray" where
  "sortDataWith hostSort e data columnId sortDirection columns =
     (case getColumnById columns columnId of
        None \<Rightarrow>
          (if production e then [] else [NoColumnFound columnId columns], InputArray)
      | Some column \<Rightarrow>
          let sortType = (case column_sortType column of
                            None \<Rightarrow> column_type column
                          | Some t \<Rightarrow> Some t);
              comparator = getSortComparator e sortType;
              sortedData = map rowData (hostSort comparator (toSortItems e column data columns))
          in ([], NewArray (if sortDirection = Descending then rev sortedData
                            else sortedData)))"

text \<open>
  One host's sort, for examples: the sort of the V8 engine as it runs on an array of
  fewer than 64 elements. It takes the run the array starts with (ascending, or strictly
  descending and then reversed) and inserts each further element at the place a binary
  search finds. A comparator result is read by its sign, NaN as zero.
\<close>

fun countRun :: "('a \<Rightarrow> 'a \<Rightarrow> jsnum) \<Rightarrow> bool \<Rightarrow> 'a \<Rightarrow> 'a list \<Rightarrow> nat" where
  "countRun comparator descending previous [] = 0"
| "countRun comparator descending previous (x # xs) =
     (if isNegative (comparator x previous) = descending
      then Suc (countRun comparator descending x xs)
      else 0)"

definition makeRun :: "('a \<Rightarrow> 'a \<Rightarrow> jsnum) \<Rightarrow> 'a list \<Rightarrow> 'a list \<times> 'a list" where
  "makeRun comparator xs =
     (case xs of
        [] \<Rightarrow> ([], [])
      | [x] \<Rightarrow> ([x], [])
      | x0 # x1 # rest \<Rightarrow>
          let descending = isNegative (comparator x1 x0);
              runLength = 2 + countRun comparator descending x1 rest
          in (if descending then rev (take runLength xs) else take runLength xs,
              drop runLength xs))"

function binarySearch ::
  "('a \<Rightarrow> 'a \<Rightarrow> jsnum) \<Rightarrow> 'a \<Rightarrow> 'a list \<Rightarrow> nat \<Rightarrow> nat \<Rightarrow> nat" where
  "binarySearch comparator pivot prefix left right =
     (if left < right then
        (let mid = left + (right - left) div 2 in
         if isNegative (comparator pivot (prefix ! mid))
         then binarySearch comparator pivot prefix left mid
         else binarySearch comparator pivot prefix (mid + 1) right)
      else left)"
  by pat_completeness auto
termination
  by (relation "measure (\<lambda>(comparator, pivot, prefix, left, right). right - left)") auto

definition binaryInsert :: "('a \<Rightarrow> 'a \<Rightarrow> jsnum) \<Rightarrow> 'a list \<Rightarrow> 'a \<Rightarrow> 'a list" where
  "binaryInsert comparator prefix pivot =
     (let left = binarySearch comparator pivot prefix 0 (length prefix)
      in take left prefix @ pivot # drop left prefix)"

definition shortArraySortV8 :: "('a \<Rightarrow> 'a \<Rightarrow> jsnum) \<Rightarrow> 'a list \<Rightarrow> 'a list" where
  "shortArraySortV8 comparator xs =
     (let (run, rest) = makeRun comparator xs
      in foldl (binaryInsert comparator) run rest)"

section \<open>Validating the columns\<close>

datatype error = TypeError

text \<open>
  \<^verbatim>\<open>ids\<close> is the object \<^verbatim>\<open>{}\<close>: its own properties, in the order of their creation,
  and behind them the properties every object inherits from \<^verbatim>\<open>Object.prototype\<close>.
  Each inherited property is a function or an object: it is truthy and has no \<^verbatim>\<open>push\<close>.
\<close>

definition objectPrototypeKeys :: "string list" where
  "objectPrototypeKeys =
     [''constructor'', ''hasOwnProperty'', ''isPrototypeOf'', ''propertyIsEnumerable'',
      ''toLocaleString'', ''toString'', ''valueOf'', ''__proto__'',
      ''__defineGetter__'', ''__defineSetter__'', ''__lookupGetter__'', ''__lookupSetter__'']"

text \<open>
  The body of the first \<^verbatim>\<open>forEach\<close>. An own \<^verbatim>\<open>ids[id]\<close> is an array and takes the
  \<^verbatim>\<open>push\<close>; an inherited one is truthy too, and calling its missing \<^verbatim>\<open>push\<close> throws;
  otherwise \<^verbatim>\<open>ids[id]\<close> is \<^verbatim>\<open>undefined\<close> and the property is created.
\<close>

definition recordId ::
  "(string \<times> nat list) list \<Rightarrow> column \<Rightarrow> nat \<Rightarrow> error + (string \<times> nat list) list" where
  "recordId ids column i =
     (let id = column_id column in
      case map_of ids id of
        Some positions \<Rightarrow> Inr (AList.update id (positions @ [i]) ids)
      | None \<Rightarrow>
          if id \<in> set objectPrototypeKeys then Inl TypeError
          else Inr (AList.update id [i] ids))"

fun collectIds ::
  "(string \<times> nat list) list \<Rightarrow> (nat \<times> column) list \<Rightarrow> error + (string \<times> nat list) list" where
  "collectIds ids [] = Inr ids"
| "collectIds ids ((i, column) # rest) =
     (case recordId ids column i of
        Inl err \<Rightarrow> Inl err
      | Inr ids' \<Rightarrow> collectIds ids' rest)"

text \<open>
  \<^verbatim>\<open>Object.keys(ids)\<close>: the keys that are array indices (a decimal numeral without
  leading zero, below \<open>2\<^sup>3\<^sup>2 - 1\<close>) come first, in ascending order, then the other keys
  in the order of their creation.
\<close>

definition isDigit :: "char \<Rightarrow> bool" where
  "isDigit c = (48 \<le> (of_char c :: nat) \<and> (of_char c :: nat) \<le> 57)"

definition decimalValue :: "string \<Rightarrow> nat" where
  "decimalValue s = foldl (\<lambda>n c. 10 * n + (of_char c - 48)) 0 s"

definition isArrayIndex :: "string \<Rightarrow> bool" where
  "isArrayIndex s =
     (s \<noteq> [] \<and> list_all isDigit s \<and> (s = ''0'' \<or> hd s \<noteq> CHR ''0'')
      \<and> decimalValue s < 2 ^ 32 - 1)"

definition objectKeys :: "(string \<times> 'a) list \<Rightarrow> string list" where
  "objectKeys ids =
     sort_key decimalValue (filter isArrayIndex (map fst ids))
     @ filter (\<lambda>k. \<not> isArrayIndex k) (map fst ids)"

text \<open>
  \<^verbatim>\<open>validateColumns(columns)\<close>, returning what it has written with \<^verbatim>\<open>console.warn\<close>, or
  the error it has thrown. \<open>None\<close> stands for columns that are \<^verbatim>\<open>undefined\<close> or
  \<^verbatim>\<open>null\<close>. The warning for an identifier is the text
  \<^verbatim>\<open>Column ID 'id' used in multiple columns\<close> followed by the positions, and the array
  of the columns at these positions.
\<close>

definition validateColumns :: "column list option \<Rightarrow> error + diagnostic list" where
  "validateColumns columnsArg =
     (case columnsArg of
        None \<Rightarrow> Inr []
      | Some columns \<Rightarrow>
          (case collectIds [] (zip [0..<length columns] columns) of
             Inl err \<Rightarrow> Inl err
           | Inr ids \<Rightarrow>
               Inr (concat (map (\<lambda>id.
                      case map_of ids id of
                        None \<Rightarrow> []
                      | Some positions \<Rightarrow>
                          if length positions > 1
                          then [DuplicateColumnId id positions
                                  (map (\<lambda>index. columns ! index) positions)]
                          else [])
                    (objectKeys ids)))))"

section \<open>An environment for worked examples\<close>

text \<open>
  A small host for evaluating the definitions on examples: strings of ASCII
  characters, \<^verbatim>\<open>localeCompare\<close> by code units, decimal literals read exactly and not
  rounded to a double, numbers printed without exponent and with at most sixteen
  fraction digits.
\<close>

definition isWhiteSpace :: "char \<Rightarrow> bool" where
  "isWhiteSpace c = ((of_char c :: nat) \<in> {9, 10, 11, 12, 13, 32})"

definition readExponent :: "string \<Rightarrow> int \<times> string" where
  "readExponent s =
     (case s of
        [] \<Rightarrow> (0, s)
      | c # t \<Rightarrow>
          if c = CHR ''e'' \<or> c = CHR ''E'' then
            (let negative = (take 1 t = ''-'');
                 u = (if take 1 t = ''-'' \<or> take 1 t = ''+'' then drop 1 t else t);
                 ds = takeWhile isDigit u
             in if ds = [] then (0, s)
                else ((if negative then - int (decimalValue ds) else int (decimalValue ds)),
                      dropWhile isDigit u))
          else (0, s))"

definition readUnsigned :: "string \<Rightarrow> jsnum \<times> string" where
  "readUnsigned s =
     (if take 8 s = ''Infinity'' then (PosInfinity, drop 8 s)
      else
        let ip = takeWhile isDigit s;
            r1 = dropWhile isDigit s;
            hasPoint = (take 1 r1 = ''.'' \<and> (ip \<noteq> [] \<or> takeWhile isDigit (drop 1 r1) \<noteq> []));
            fp = (if hasPoint then takeWhile isDigit (drop 1 r1) else []);
            r2 = (if hasPoint then dropWhile isDigit (drop 1 r1) else r1)
        in if ip = [] \<and> fp = [] then (NaN, s)
           else
             let (ex, r3) = readExponent r2;
                 m = real (decimalValue ip) + real (decimalValue fp) / 10 ^ length fp
             in (Finite (if ex < 0 then m / 10 ^ nat (- ex) else m * 10 ^ nat ex), r3))"

fun num_negate :: "jsnum \<Rightarrow> jsnum" where
  "num_negate NaN = NaN"
| "num_negate NegInfinity = PosInfinity"
| "num_negate PosInfinity = NegInfinity"
| "num_negate (Finite x) = Finite (- x)"

definition readSigned :: "string \<Rightarrow> jsnum \<times> string" where
  "readSigned s =
     (if take 1 s = ''-'' then (let (v, r) = readUnsigned (drop 1 s) in (num_negate v, r))
      else if take 1 s = ''+'' then readUnsigned (drop 1 s)
      else readUnsigned s)"

definition digitOfChar :: "char \<Rightarrow> nat" where
  "digitOfChar c =
     (let n = (of_char c :: nat) in
      if 48 \<le> n \<and> n \<le> 57 then n - 48
      else if 97 \<le> n \<and> n \<le> 122 then n - 87
      else if 65 \<le> n \<and> n \<le> 90 then n - 55
      else 36)"

definition readRadix :: "nat \<Rightarrow> string \<Rightarrow> jsnum" where
  "readRadix b ds =
     (if ds \<noteq> [] \<and> list_all (\<lambda>c. digitOfChar c < b) ds
      then Finite (real (foldl (\<lambda>n c. b * n + digitOfChar c) 0 ds))
      else NaN)"

definition example_parseFloatString :: "string \<Rightarrow> jsnum" where
  "example_parseFloatString s = fst (readSigned (dropWhile isWhiteSpace s))"

definition example_toNumberString :: "string \<Rightarrow> jsnum" where
  "example_toNumberString s =
     (let t = rev (dropWhile isWhiteSpace (rev (dropWhile isWhiteSpace s))) in
      if t = [] then Finite 0
      else if take 2 t = ''0x'' \<or> take 2 t = ''0X'' then readRadix 16 (drop 2 t)
      else if take 2 t = ''0o'' \<or> take 2 t = ''0O'' then readRadix 8 (drop 2 t)
      else if take 2 t = ''0b'' \<or> take 2 t = ''0B'' then readRadix 2 (drop 2 t)
      else (case readSigned t of (v, []) \<Rightarrow> v | (v, c # r) \<Rightarrow> NaN))"

fun showNat :: "nat \<Rightarrow> string" where
  "showNat n =
     (if n < 10 then [char_of (48 + n)]
      else showNat (n div 10) @ [char_of (48 + n mod 10)])"

fun showFraction :: "nat \<Rightarrow> real \<Rightarrow> string" where
  "showFraction 0 f = []"
| "showFraction (Suc k) f =
     (if f = 0 then []
      else char_of (48 + nat \<lfloor>f * 10\<rfloor>) # showFraction k (f * 10 - of_int \<lfloor>f * 10\<rfloor>))"

fun example_numberToString :: "jsnum \<Rightarrow> string" where
  "example_numberToString NaN = ''NaN''"
| "example_numberToString PosInfinity = ''Infinity''"
| "example_numberToString NegInfinity = ''-Infinity''"
| "example_numberToString (Finite x) =
     (let a = \<bar>x\<bar>; fs = showFraction 16 (a - of_int \<lfloor>a\<rfloor>) in
      (if x < 0 then ''-'' else []) @ showNat (nat \<lfloor>a\<rfloor>)
        @ (if fs = [] then [] else CHR ''.'' # fs))"

definition example_toLowerCase :: "string \<Rightarrow> string" where
  "example_toLowerCase s =
     map (\<lambda>c. if 65 \<le> (of_char c :: nat) \<and> (of_char c :: nat) \<le> 90
               then char_of ((of_char c :: nat) + 32) else c) s"

definition example_localeCompare :: "string \<Rightarrow> string \<Rightarrow> int" where
  "example_localeCompare s t =
     (if string_less s t then - 1 else if string_less t s then 1 else 0)"

text \<open>
  The functions behind the references of the examples: value function 0 is
  \<^verbatim>\<open>function (rowData, rowNumber) { return rowNumber; }\<close>, every other one is
  \<^verbatim>\<open>function (rowData) { return rowData.name; }\<close>; sort-value function 0 is
  \<^verbatim>\<open>function (cellData, rowData) { return rowData.rank; }\<close>, every other one is
  \<^verbatim>\<open>function (cellData) { return cellData === 'high' ? 1 : 0; }\<close>.
\<close>

definition example_callValue ::
  "nat \<Rightarrow> row \<Rightarrow> nat \<Rightarrow> row list \<Rightarrow> column list \<Rightarrow> jsval" where
  "example_callValue f r rowNumber tableData columns =
     (if f = 0 then JNum (Finite (real rowNumber)) else r ''name'')"

definition example_callSortValue :: "nat \<Rightarrow> jsval \<Rightarrow> row \<Rightarrow> jsval" where
  "example_callSortValue f cellData r =
     (if f = 0 then r ''rank''
      else if strict_eq cellData (JStr ''high'') then JNum (Finite 1) else JNum (Finite 0))"

definition example_env :: env where
  "example_env =
     \<lparr>parseFloatString = example_parseFloatString,
      toNumberString = example_toNumberString,
      numberToString = example_numberToString,
      toLowerCase = example_toLowerCase,
      localeCompare = example_localeCompare,
      callValue = example_callValue,
      callSortValue = example_callSortValue,
      production = False\<rparr>"

text \<open>A row given by its own properties, and a column with nothing but an id and a type.\<close>

definition rowOf :: "(string \<times> jsval) list \<Rightarrow> row" where
  "rowOf props key = (case map_of props key of Some v \<Rightarrow> v | None \<Rightarrow> JUndefined)"

definition plainColumn :: "string \<Rightarrow> DataType option \<Rightarrow> column" where
  "plainColumn columnId ty =
     \<lparr>column_id = columnId, column_value = ValueUndefined, column_sortValue = None,
      column_type = ty, column_sortType = None\<rparr>"

definition num :: "real \<Rightarrow> jsval" where
  "num x = JNum (Finite x)"

section \<open>Facts about numbers and the sort\<close>

lemma isPositive_simps [simp]:
  "isPositive (Finite x) = (0 < x)" "\<not> isPositive NaN" "isPositive PosInfinity" "\<not> isPositive NegInfinity"
  by (simp_all add: isPositive_def)

lemma isNegative_simps [simp]:
  "isNegative (Finite x) = (x < 0)" "\<not> isNegative NaN" "\<not> isNegative PosInfinity" "isNegative NegInfinity"
  by (simp_all add: isNegative_def)

lemma index_minus_Finite: "index_minus i j = Finite (real i - real j)"
  by (simp add: index_minus_def)

lemma index_minus_sign:
  "isNegative (index_minus i j) = (i < j)" "isPositive (index_minus i j) = (j < i)"
  by (simp_all add: index_minus_Finite)

lemma strict_eq_refl_iff: "strict_eq v v \<longleftrightarrow> v \<noteq> JNum NaN"
proof (cases v)
  case (JNum n)
  then show ?thesis by (cases n) simp_all
qed simp_all

lemmas example_simps =
  sortData_def toSortItems_def getSortValue_def getCellData_def getSortValueFromCellData_def
  numberComparator_def stringComparator_def defaultComparator_def
  example_env_def example_localeCompare_def example_toLowerCase_def
  example_parseFloatString_def readSigned_def readUnsigned_def readExponent_def
  isWhiteSpace_def isDigit_def decimalValue_def
  rowOf_def num_def plainColumn_def index_minus_def Let_def

text \<open>The sort returns the elements it was given, each as often as it was given.\<close>

lemma mset_insertSorted: "mset (insertSorted c x ys) = add_mset x (mset ys)"
  by (induction ys) simp_all

lemma mset_arraySort: "mset (arraySort c xs) = mset xs"
  by (induction xs) (simp_all add: mset_insertSorted)

lemma set_arraySort: "set (arraySort c xs) = set xs"
  using mset_arraySort [of c xs] by (metis set_mset_mset)

lemma length_arraySort: "length (arraySort c xs) = length xs"
  using mset_arraySort [of c xs] by (metis size_mset)

text \<open>
  For a comparator that is consistent on the items, the model puts them in the
  comparator's order.
\<close>

lemma not_negative_and_positive: "\<not> (isNegative v \<and> isPositive v)"
  by (cases v) simp_all

lemma set_insertSorted: "set (insertSorted c x ys) = insert x (set ys)"
  using mset_insertSorted [of c x ys] by (metis set_mset_add_mset_insert set_mset_mset)

lemma insertSorted_in_order:
  assumes "sorted_wrt (\<lambda>a b. isNegative (c a b)) ys"
    and "\<And>y. y \<in> set ys \<Longrightarrow> isNegative (c x y) \<or> isPositive (c x y)"
    and "\<And>y. y \<in> set ys \<Longrightarrow> isPositive (c x y) = isNegative (c y x)"
    and "\<And>y z. y \<in> set ys \<Longrightarrow> z \<in> set ys \<Longrightarrow> isNegative (c x y)
           \<Longrightarrow> isNegative (c y z) \<Longrightarrow> isNegative (c x z)"
  shows "sorted_wrt (\<lambda>a b. isNegative (c a b)) (insertSorted c x ys)"
  using assms
proof (induction ys)
  case Nil
  show ?case by simp
next
  case (Cons y ys)
  have tail: "sorted_wrt (\<lambda>a b. isNegative (c a b)) ys"
    and head: "\<And>z. z \<in> set ys \<Longrightarrow> isNegative (c y z)"
    using Cons.prems(1) by simp_all
  show ?case
  proof (cases "isPositive (c x y)")
    case True
    have "sorted_wrt (\<lambda>a b. isNegative (c a b)) (insertSorted c x ys)"
    proof (rule Cons.IH [OF tail])
      fix u assume u: "u \<in> set ys"
      then have "u \<in> set (y # ys)" by simp
      then show "isNegative (c x u) \<or> isPositive (c x u)" by (rule Cons.prems(2))
      from \<open>u \<in> set (y # ys)\<close> show "isPositive (c x u) = isNegative (c u x)"
        by (rule Cons.prems(3))
      fix v assume "v \<in> set ys" and "isNegative (c x u)" and "isNegative (c u v)"
      then show "isNegative (c x v)"
        using Cons.prems(4) [of u v] u by simp
    qed
    moreover have "isNegative (c y x)"
      using True Cons.prems(3) [of y] by simp
    ultimately have "sorted_wrt (\<lambda>a b. isNegative (c a b)) (y # insertSorted c x ys)"
      using head by (simp add: set_insertSorted)
    then show ?thesis using True by simp
  next
    case False
    have xy: "isNegative (c x y)"
      using False Cons.prems(2) [of y] by simp
    have "isNegative (c x z)" if "z \<in> set ys" for z
      using Cons.prems(4) [of y z] xy head [OF that] that by simp
    then have "sorted_wrt (\<lambda>a b. isNegative (c a b)) (x # y # ys)"
      using xy tail head by simp
    then show ?thesis using False by simp
  qed
qed

lemma consistentOn_pair:
  assumes "consistentOn c items" and "a \<in> set items" and "b \<in> set items"
    and "index a \<noteq> index b"
  shows "isNegative (c a b) \<or> isPositive (c a b)"
    and "isPositive (c a b) = isNegative (c b a)"
  using assms unfolding consistentOn_def by blast+

lemma consistentOn_chain:
  assumes "consistentOn c items" and "a \<in> set items" and "b \<in> set items"
    and "d \<in> set items" and "isNegative (c a b)" and "isNegative (c b d)"
  shows "isNegative (c a d)"
  using assms unfolding consistentOn_def by blast

lemma consistentOn_Cons:
  assumes "consistentOn c (x # xs)"
  shows "consistentOn c xs"
  unfolding consistentOn_def
proof (intro conjI ballI impI)
  fix a b assume ab: "a \<in> set xs" "b \<in> set xs" and ne: "index a \<noteq> index b"
  then have m: "a \<in> set (x # xs)" "b \<in> set (x # xs)" by simp_all
  show "isNegative (c a b) \<or> isPositive (c a b)"
    using assms m ne by (rule consistentOn_pair(1))
  show "isPositive (c a b) = isNegative (c b a)"
    using assms m ne by (rule consistentOn_pair(2))
next
  fix a b d assume "a \<in> set xs" "b \<in> set xs" "d \<in> set xs"
    and n: "isNegative (c a b) \<and> isNegative (c b d)"
  then have m: "a \<in> set (x # xs)" "b \<in> set (x # xs)" "d \<in> set (x # xs)" by simp_all
  from n have "isNegative (c a b)" and "isNegative (c b d)" by simp_all
  with assms m show "isNegative (c a d)" by (rule consistentOn_chain)
qed

lemma arraySort_in_order:
  assumes "consistentOn c items" and "distinct (map index items)"
  shows "sorted_wrt (\<lambda>a b. isNegative (c a b)) (arraySort c items)"
  using assms
proof (induction items)
  case Nil
  show ?case by simp
next
  case (Cons x xs)
  have "consistentOn c xs" using Cons.prems(1) by (rule consistentOn_Cons)
  moreover have "distinct (map index xs)" using Cons.prems(2) by simp
  ultimately have sorted: "sorted_wrt (\<lambda>a b. isNegative (c a b)) (arraySort c xs)"
    by (rule Cons.IH)
  have differ: "index x \<noteq> index y" if "y \<in> set xs" for y
    using Cons.prems(2) that by auto
  have "sorted_wrt (\<lambda>a b. isNegative (c a b)) (insertSorted c x (arraySort c xs))"
  proof (rule insertSorted_in_order [OF sorted]; unfold set_arraySort)
    fix y assume y: "y \<in> set xs"
    then have m: "x \<in> set (x # xs)" "y \<in> set (x # xs)" by simp_all
    show "isNegative (c x y) \<or> isPositive (c x y)"
      using consistentOn_pair(1) [OF Cons.prems(1) m differ [OF y]] .
    show "isPositive (c x y) = isNegative (c y x)"
      using consistentOn_pair(2) [OF Cons.prems(1) m differ [OF y]] .
    fix z assume "z \<in> set xs" and "isNegative (c x y)" and "isNegative (c y z)"
    then show "isNegative (c x z)"
      using consistentOn_chain [OF Cons.prems(1) m, of z] by simp
  qed
  then show ?case by simp
qed

lemma in_order_unique:
  assumes "sorted_wrt R ys" and "sorted_wrt R zs"
    and "distinct ys" and "distinct zs" and "set ys = set zs"
    and "\<forall>a \<in> set ys. \<forall>b \<in> set ys. a \<noteq> b \<longrightarrow> \<not> (R a b \<and> R b a)"
  shows "ys = zs"
  using assms
proof (induction ys arbitrary: zs)
  case Nil
  then show ?case by simp
next
  case (Cons y ys)
  then obtain z zs' where zs: "zs = z # zs'" by (cases zs) auto
  have "y = z"
  proof (rule ccontr)
    assume ne: "y \<noteq> z"
    with Cons.prems(5) zs have "y \<in> set zs'" and "z \<in> set ys" by auto
    with Cons.prems(1,2) zs have "R z y" and "R y z" by auto
    moreover have "y \<in> set (y # ys)" and "z \<in> set (y # ys)" using \<open>z \<in> set ys\<close> by simp_all
    ultimately show False using Cons.prems(6) ne by blast
  qed
  moreover have "ys = zs'"
  proof (rule Cons.IH)
    show "sorted_wrt R ys" using Cons.prems(1) by simp
    show "sorted_wrt R zs'" using Cons.prems(2) zs by simp
    show "distinct ys" using Cons.prems(3) by simp
    show "distinct zs'" using Cons.prems(4) zs by simp
    show "set ys = set zs'"
      using Cons.prems(3,4,5) zs \<open>y = z\<close> by auto
    show "\<forall>a \<in> set ys. \<forall>b \<in> set ys. a \<noteq> b \<longrightarrow> \<not> (R a b \<and> R b a)"
      using Cons.prems(6) by simp
  qed
  ultimately show ?case using zs by simp
qed

text \<open>
  For a comparator that is consistent on the items, the model returns the one arrangement
  that is in the comparator's order: the result that the standard fixes.
\<close>

lemma arraySort_is_the_order:
  assumes "consistentOn c items" and "distinct (map index items)"
    and "mset ys = mset items" and "sorted_wrt (\<lambda>a b. isNegative (c a b)) ys"
  shows "ys = arraySort c items"
proof (rule in_order_unique [where R = "\<lambda>a b. isNegative (c a b)"])
  show "sorted_wrt (\<lambda>a b. isNegative (c a b)) ys" by fact
  show "sorted_wrt (\<lambda>a b. isNegative (c a b)) (arraySort c items)"
    using assms(1,2) by (rule arraySort_in_order)
  have d: "distinct items" using assms(2) by (rule distinct_map [THEN iffD1, THEN conjunct1])
  show "distinct ys" using d mset_eq_imp_distinct_iff [OF assms(3)] by simp
  show "distinct (arraySort c items)"
    using d mset_eq_imp_distinct_iff [OF mset_arraySort [of c items]] by simp
  have s: "set ys = set items" using assms(3) by (rule mset_eq_setD)
  then show "set ys = set (arraySort c items)" by (simp add: set_arraySort)
  show "\<forall>a \<in> set ys. \<forall>b \<in> set ys. a \<noteq> b
          \<longrightarrow> \<not> (isNegative (c a b) \<and> isNegative (c b a))"
  proof (intro ballI impI)
    fix a b assume "a \<in> set ys" and "b \<in> set ys" and "a \<noteq> b"
    then have ab: "a \<in> set items" "b \<in> set items" using s by simp_all
    have "inj_on index (set items)" using assms(2) by (simp add: distinct_map)
    then have "index a \<noteq> index b"
      using ab \<open>a \<noteq> b\<close> inj_onD [of index "set items" a b] by blast
    with assms(1) ab have "isPositive (c a b) = isNegative (c b a)"
      by (intro consistentOn_pair(2))
    then show "\<not> (isNegative (c a b) \<and> isNegative (c b a))"
      using not_negative_and_positive [of "c a b"] by auto
  qed
qed

lemma split_at_two_positions:
  assumes "i < j" and "j < length xs"
  shows "\<exists>us vs ws. xs = us @ xs ! i # vs @ xs ! j # ws"
proof -
  define d where "d = drop (Suc i) xs"
  have i: "i < length xs" using assms by simp
  have k: "j - Suc i < length d" using assms by (simp add: d_def)
  have "xs = take i xs @ xs ! i # d"
    unfolding d_def using i by (rule id_take_nth_drop)
  moreover have "d = take (j - Suc i) d @ d ! (j - Suc i) # drop (Suc (j - Suc i)) d"
    using k by (rule id_take_nth_drop)
  moreover have "d ! (j - Suc i) = xs ! j"
    using assms by (simp add: d_def)
  ultimately have "xs = take i xs @ xs ! i # take (j - Suc i) d @ xs ! j
      # drop (Suc (j - Suc i)) d"
    by simp
  then show ?thesis by blast
qed

text \<open>The sort items of \<^verbatim>\<open>sortData\<close>.\<close>

lemma length_toSortItems: "length (toSortItems e column data columns) = length data"
  by (simp add: toSortItems_def)

lemma nth_toSortItems:
  "i < length data \<Longrightarrow>
   toSortItems e column data columns ! i =
     \<lparr>rowData = data ! i, index = i,
      sortValue = getSortValue e column (data ! i) i data columns\<rparr>"
  by (simp add: toSortItems_def)

lemma map_index_toSortItems:
  "map index (toSortItems e column data columns) = [0..<length data]"
proof -
  have "map index (toSortItems e column data columns) = map fst (zip [0..<length data] data)"
    by (simp add: toSortItems_def case_prod_unfold comp_def)
  then show ?thesis by simp
qed

lemma rowData_toSortItems:
  "item \<in> set (toSortItems e column data columns) \<Longrightarrow> rowData item = data ! index item"
  by (auto simp: toSortItems_def set_zip)

text \<open>The rows in sorted order, by the positions they came from.\<close>

lemma sorted_rows_by_position:
  "map rowData (arraySort c (toSortItems e column data columns))
     = map (\<lambda>k. data ! k) (map index (arraySort c (toSortItems e column data columns)))"
  by (simp add: set_arraySort rowData_toSortItems)

lemma sorted_positions_permutation:
  "mset (map index (arraySort c (toSortItems e column data columns))) = mset [0..<length data]"
proof -
  have "mset (map index (arraySort c (toSortItems e column data columns)))
          = image_mset index (mset (toSortItems e column data columns))"
    by (simp add: mset_arraySort)
  also have "\<dots> = mset (map index (toSortItems e column data columns))" by simp
  finally show ?thesis by (simp only: map_index_toSortItems)
qed

lemma mset_rows_by_position:
  assumes "mset perm = mset [0..<length data]"
  shows "mset (map (\<lambda>k. data ! k) perm) = mset data"
proof -
  have "mset (map (\<lambda>k. data ! k) perm) = image_mset (\<lambda>k. data ! k) (mset [0..<length data])"
    using assms by simp
  also have "\<dots> = mset (map (\<lambda>k. data ! k) [0..<length data])" by simp
  finally show ?thesis by (simp only: map_nth)
qed

lemma getColumnById_None_iff:
  "getColumnById columns columnId = None \<longleftrightarrow> (\<forall>c \<in> set columns. column_id c \<noteq> columnId)"
  by (induction columns) auto

lemma sortData_found:
  "getColumnById columns columnId = Some column \<Longrightarrow>
   sortData e data columnId sortDirection columns =
     ([], NewArray
        (if sortDirection = Descending
         then rev (map rowData (arraySort
                (getSortComparator e (case column_sortType column of
                                        None \<Rightarrow> column_type column | Some t \<Rightarrow> Some t))
                (toSortItems e column data columns)))
         else map rowData (arraySort
                (getSortComparator e (case column_sortType column of
                                        None \<Rightarrow> column_type column | Some t \<Rightarrow> Some t))
                (toSortItems e column data columns))))"
  by (simp add: sortData_def Let_def)

lemma distinct_index_toSortItems:
  "distinct (map index (toSortItems e column data columns))"
  by (simp only: map_index_toSortItems distinct_upt)

text \<open>
  When the comparator is consistent on the sort items, a row that it puts before another
  one comes before it in the result.
\<close>

lemma sorted_positions_in_order:
  assumes "consistentOn c (toSortItems e column data columns)"
    and "i < length data" and "j < length data" and "i \<noteq> j"
    and "isNegative (c (toSortItems e column data columns ! i)
                       (toSortItems e column data columns ! j))"
  shows "\<exists>us vs ws. map index (arraySort c (toSortItems e column data columns))
                      = us @ i # vs @ j # ws"
proof -
  define items where "items = toSortItems e column data columns"
  define S where "S = arraySort c items"
  have len: "i < length items" "j < length items"
    using assms(2,3) by (simp_all add: items_def length_toSortItems)
  have idx: "index (items ! i) = i" "index (items ! j) = j"
    using assms(2,3) by (simp_all add: items_def nth_toSortItems)
  have mem: "items ! i \<in> set items" "items ! j \<in> set items"
    using len by simp_all
  have sorted: "sorted_wrt (\<lambda>a b. isNegative (c a b)) S"
    unfolding S_def items_def
    using assms(1) distinct_index_toSortItems by (rule arraySort_in_order)
  from mem have "items ! i \<in> set S" "items ! j \<in> set S"
    by (simp_all add: S_def set_arraySort)
  then obtain p q where p: "p < length S" "S ! p = items ! i"
    and q: "q < length S" "S ! q = items ! j"
    by (auto simp: in_set_conv_nth)
  have "p \<noteq> q" using p q idx assms(4) by auto
  moreover have "\<not> q < p"
  proof
    assume "q < p"
    with sorted p(1) have "isNegative (c (S ! q) (S ! p))"
      using sorted_wrt_nth_less [of "\<lambda>a b. isNegative (c a b)" S q p] by simp
    then have "isNegative (c (items ! j) (items ! i))" using p q by simp
    moreover have "isPositive (c (items ! i) (items ! j)) = isNegative (c (items ! j) (items ! i))"
      using assms(1) mem idx assms(4) unfolding items_def [symmetric]
      by (intro consistentOn_pair(2)) simp_all
    ultimately show False
      using assms(5) not_negative_and_positive [of "c (items ! i) (items ! j)"]
      unfolding items_def [symmetric] by simp
  qed
  ultimately have "p < q" by simp
  from split_at_two_positions [OF this q(1)] obtain us vs ws
    where "S = us @ S ! p # vs @ S ! q # ws" by blast
  then have "map index S = map index us @ index (S ! p) # map index vs
      @ index (S ! q) # map index ws"
    by (metis list.simps(9) map_append)
  then have "map index S = map index us @ i # map index vs @ j # map index ws"
    using p q idx by simp
  then show ?thesis unfolding S_def items_def by blast
qed

lemma sortDataWith_found:
  "getColumnById columns columnId = Some column \<Longrightarrow>
   sortDataWith hostSort e data columnId sortDirection columns =
     ([], NewArray
        (if sortDirection = Descending
         then rev (map rowData (hostSort
                (getSortComparator e (case column_sortType column of
                                        None \<Rightarrow> column_type column | Some t \<Rightarrow> Some t))
                (toSortItems e column data columns)))
         else map rowData (hostSort
                (getSortComparator e (case column_sortType column of
                                        None \<Rightarrow> column_type column | Some t \<Rightarrow> Some t))
                (toSortItems e column data columns))))"
  by (simp add: sortDataWith_def Let_def)

lemma sortData_as_sortDataWith:
  "sortData e data columnId sortDirection columns
     = sortDataWith arraySort e data columnId sortDirection columns"
  by (simp add: sortData_def sortDataWith_def)

text \<open>
  A host that returns the sort items in the comparator's order, for a comparator that
  is consistent on them, returns what the model returns.
\<close>

lemma host_agrees_with_model:
  assumes "consistentOn c (toSortItems e column data columns)"
    and "mset (hostSort c (toSortItems e column data columns))
           = mset (toSortItems e column data columns)"
    and "sorted_wrt (\<lambda>a b. isNegative (c a b)) (hostSort c (toSortItems e column data columns))"
  shows "hostSort c (toSortItems e column data columns)
           = arraySort c (toSortItems e column data columns)"
  using assms(1) distinct_index_toSortItems assms(2,3) by (rule arraySort_is_the_order)

lemmas host_simps = sortDataWith_def shortArraySortV8_def makeRun_def binaryInsert_def

section \<open>Properties of the comparators\<close>

text \<open>
  What the comparators do with two items whose keys are both \<^verbatim>\<open>null\<close> or
  \<^verbatim>\<open>undefined\<close>, or are the same key: they return the difference of the indices, when
  under the number comparator the key reads as a finite number, under the string
  comparator \<^verbatim>\<open>localeCompare\<close> finds the key's lower-cased text equal to itself, and
  under the default comparator the key is not NaN.
\<close>

lemma comparator_breaks_tie_by_index:
  assumes "(isNullish (sortValue a) \<and> isNullish (sortValue b))
           \<or> (sortValue a = sortValue b
              \<and> (case ty of
                    Some DataType_Number \<Rightarrow> \<exists>x. parseFloat e (sortValue a) = Finite x
                  | Some DataType_NumberOrdinal \<Rightarrow> \<exists>x. parseFloat e (sortValue a) = Finite x
                  | Some DataType_String \<Rightarrow>
                      localeCompare e (toLowerCase e (toString e (sortValue a)))
                        (toLowerCase e (toString e (sortValue a))) = 0
                  | _ \<Rightarrow> sortValue a \<noteq> JNum NaN))"
  shows "getSortComparator e ty a b = index_minus (index a) (index b)"
proof (cases "isNullish (sortValue a) \<and> isNullish (sortValue b)")
  case True
  show ?thesis
  proof (cases ty)
    case None
    with True show ?thesis by (simp add: defaultComparator_def)
  next
    case (Some t)
    with True show ?thesis
      by (cases t) (simp_all add: numberComparator_def stringComparator_def defaultComparator_def)
  qed
next
  case False
  with assms have eq: "sortValue a = sortValue b" by blast
  with False have nn: "\<not> isNullish (sortValue a)" "\<not> isNullish (sortValue b)" by simp_all
  show ?thesis
  proof (cases ty)
    case None
    with assms False have "strict_eq (sortValue a) (sortValue b)"
      using eq by (simp add: strict_eq_refl_iff)
    with nn None show ?thesis by (simp add: defaultComparator_def)
  next
    case (Some t)
    show ?thesis
    proof (cases t)
      case DataType_Number
      with assms False Some obtain x where "parseFloat e (sortValue a) = Finite x" by auto
      with nn eq Some DataType_Number show ?thesis by (simp add: numberComparator_def)
    next
      case DataType_NumberOrdinal
      with assms False Some obtain x where "parseFloat e (sortValue a) = Finite x" by auto
      with nn eq Some DataType_NumberOrdinal show ?thesis by (simp add: numberComparator_def)
    next
      case DataType_String
      with assms False Some have
        "localeCompare e (toLowerCase e (toString e (sortValue a)))
           (toLowerCase e (toString e (sortValue a))) = 0" by auto
      with nn eq Some DataType_String show ?thesis by (simp add: stringComparator_def)
    next
      case (DataType_Other s)
      with assms False Some have "strict_eq (sortValue a) (sortValue b)"
        using eq by (simp add: strict_eq_refl_iff)
      with nn Some DataType_Other show ?thesis by (simp add: defaultComparator_def)
    qed
  qed
qed

text \<open>
  The number comparator on two items whose keys are \<^verbatim>\<open>null\<close>, \<^verbatim>\<open>undefined\<close> or read as a
  finite number: keys that read as numbers first, by their value, then the others; the
  index between equals. It is consistent on such items.
\<close>

lemma numberComparator_negative_iff:
  assumes "isNullish (sortValue a) \<or> (\<exists>x. parseFloat e (sortValue a) = Finite x)"
    and "isNullish (sortValue b) \<or> (\<exists>x. parseFloat e (sortValue b) = Finite x)"
  shows "isNegative (numberComparator e a b) =
           (if isNullish (sortValue a) then isNullish (sortValue b) \<and> index a < index b
            else isNullish (sortValue b)
                 \<or> num_less (parseFloat e (sortValue a)) (parseFloat e (sortValue b))
                 \<or> (parseFloat e (sortValue a) = parseFloat e (sortValue b)
                    \<and> index a < index b))"
    and "isPositive (numberComparator e a b) =
           (if isNullish (sortValue b) then isNullish (sortValue a) \<and> index b < index a
            else isNullish (sortValue a)
                 \<or> num_less (parseFloat e (sortValue b)) (parseFloat e (sortValue a))
                 \<or> (parseFloat e (sortValue a) = parseFloat e (sortValue b)
                    \<and> index b < index a))"
proof -
  consider (nn) "isNullish (sortValue a)" "isNullish (sortValue b)"
    | (nf) "isNullish (sortValue a)" "\<not> isNullish (sortValue b)"
    | (fn) "\<not> isNullish (sortValue a)" "isNullish (sortValue b)"
    | (ff) x y where "\<not> isNullish (sortValue a)" "\<not> isNullish (sortValue b)"
        "parseFloat e (sortValue a) = Finite x" "parseFloat e (sortValue b) = Finite y"
    using assms by blast
  then have "isNegative (numberComparator e a b) =
           (if isNullish (sortValue a) then isNullish (sortValue b) \<and> index a < index b
            else isNullish (sortValue b)
                 \<or> num_less (parseFloat e (sortValue a)) (parseFloat e (sortValue b))
                 \<or> (parseFloat e (sortValue a) = parseFloat e (sortValue b)
                    \<and> index a < index b))
      \<and> isPositive (numberComparator e a b) =
           (if isNullish (sortValue b) then isNullish (sortValue a) \<and> index b < index a
            else isNullish (sortValue a)
                 \<or> num_less (parseFloat e (sortValue b)) (parseFloat e (sortValue a))
                 \<or> (parseFloat e (sortValue a) = parseFloat e (sortValue b)
                    \<and> index b < index a))"
  proof cases
    case nn
    then show ?thesis by (simp add: numberComparator_def index_minus_Finite)
  next
    case nf
    then show ?thesis by (simp add: numberComparator_def)
  next
    case fn
    then show ?thesis by (simp add: numberComparator_def)
  next
    case ff
    then show ?thesis
      by (cases "x = y") (auto simp: numberComparator_def index_minus_Finite)
  qed
  then show "isNegative (numberComparator e a b) =
           (if isNullish (sortValue a) then isNullish (sortValue b) \<and> index a < index b
            else isNullish (sortValue b)
                 \<or> num_less (parseFloat e (sortValue a)) (parseFloat e (sortValue b))
                 \<or> (parseFloat e (sortValue a) = parseFloat e (sortValue b)
                    \<and> index a < index b))"
    and "isPositive (numberComparator e a b) =
           (if isNullish (sortValue b) then isNullish (sortValue a) \<and> index b < index a
            else isNullish (sortValue a)
                 \<or> num_less (parseFloat e (sortValue b)) (parseFloat e (sortValue a))
                 \<or> (parseFloat e (sortValue a) = parseFloat e (sortValue b)
                    \<and> index b < index a))"
    by simp_all
qed

lemma numberComparator_consistent:
  assumes "\<forall>item \<in> set items.
             isNullish (sortValue item) \<or> (\<exists>x. parseFloat e (sortValue item) = Finite x)"
  shows "consistentOn (numberComparator e) items"
  unfolding consistentOn_def
proof (intro conjI ballI impI)
  fix a b assume ab: "a \<in> set items" "b \<in> set items" and ne: "index a \<noteq> index b"
  from ab assms have ra: "isNullish (sortValue a) \<or> (\<exists>x. parseFloat e (sortValue a) = Finite x)"
    and rb: "isNullish (sortValue b) \<or> (\<exists>x. parseFloat e (sortValue b) = Finite x)" by blast+
  show "isPositive (numberComparator e a b) = isNegative (numberComparator e b a)"
    unfolding numberComparator_negative_iff(2) [OF ra rb]
      numberComparator_negative_iff(1) [OF rb ra] by auto
  show "isNegative (numberComparator e a b) \<or> isPositive (numberComparator e a b)"
  proof (cases "isNullish (sortValue a) \<or> isNullish (sortValue b)")
    case True
    then show ?thesis
      unfolding numberComparator_negative_iff [OF ra rb] using ne by auto
  next
    case False
    with ra rb obtain x y where "parseFloat e (sortValue a) = Finite x"
      "parseFloat e (sortValue b) = Finite y" by blast
    with False show ?thesis
      unfolding numberComparator_negative_iff [OF ra rb] using ne by auto
  qed
next
  fix a b d assume m: "a \<in> set items" "b \<in> set items" "d \<in> set items"
    and n: "isNegative (numberComparator e a b) \<and> isNegative (numberComparator e b d)"
  from m assms have ra: "isNullish (sortValue a) \<or> (\<exists>x. parseFloat e (sortValue a) = Finite x)"
    and rb: "isNullish (sortValue b) \<or> (\<exists>x. parseFloat e (sortValue b) = Finite x)"
    and rd: "isNullish (sortValue d) \<or> (\<exists>x. parseFloat e (sortValue d) = Finite x)" by blast+
  consider (null) "isNullish (sortValue a) \<or> isNullish (sortValue b) \<or> isNullish (sortValue d)"
    | (fin) x y z where "\<not> isNullish (sortValue a)" "\<not> isNullish (sortValue b)"
        "\<not> isNullish (sortValue d)" "parseFloat e (sortValue a) = Finite x"
        "parseFloat e (sortValue b) = Finite y" "parseFloat e (sortValue d) = Finite z"
    using ra rb rd by blast
  then show "isNegative (numberComparator e a d)"
  proof cases
    case null
    with n show ?thesis
      unfolding numberComparator_negative_iff(1) [OF ra rb]
        numberComparator_negative_iff(1) [OF rb rd]
        numberComparator_negative_iff(1) [OF ra rd]
      by (auto split: if_splits)
  next
    case fin
    with n show ?thesis
      unfolding numberComparator_negative_iff(1) [OF ra rb]
        numberComparator_negative_iff(1) [OF rb rd]
        numberComparator_negative_iff(1) [OF ra rd]
      by auto
  qed
qed

text \<open>
  Claim C3. When exactly one of two sort items has a sort key that is \<^verbatim>\<open>null\<close> or
  \<^verbatim>\<open>undefined\<close>, the comparators for Number and NumberOrdinal put that item after the
  other (they return 1 with it on the left and -1 with it on the right); the comparator
  for String and the default comparator, taken for every other type and for no type, put
  it before the other.
\<close>

theorem null_key_ordering:
  assumes "isNullish (sortValue a)" and "\<not> isNullish (sortValue b)"
  shows "getSortComparator e (Some DataType_Number) a b = Finite 1
       \<and> getSortComparator e (Some DataType_Number) b a = Finite (- 1)
       \<and> getSortComparator e (Some DataType_NumberOrdinal) a b = Finite 1
       \<and> getSortComparator e (Some DataType_NumberOrdinal) b a = Finite (- 1)
       \<and> getSortComparator e (Some DataType_String) a b = Finite (- 1)
       \<and> getSortComparator e (Some DataType_String) b a = Finite 1
       \<and> getSortComparator e None a b = Finite (- 1)
       \<and> getSortComparator e None b a = Finite 1
       \<and> (\<forall>s. getSortComparator e (Some (DataType_Other s)) a b = Finite (- 1)
              \<and> getSortComparator e (Some (DataType_Other s)) b a = Finite 1)
       \<and> isPositive (Finite 1) \<and> isNegative (Finite (- 1))"
  using assms
  by (simp add: numberComparator_def stringComparator_def defaultComparator_def)

theorem null_key_ordering_witness:
  "isNullish (sortValue \<lparr>rowData = rowOf [(''n'', JNull)], index = 0, sortValue = JNull\<rparr>)
   \<and> \<not> isNullish (sortValue \<lparr>rowData = rowOf [(''n'', num 5)], index = 1, sortValue = num 5\<rparr>)
   \<and> getSortComparator example_env (Some DataType_Number)
        \<lparr>rowData = rowOf [(''n'', JNull)], index = 0, sortValue = JNull\<rparr>
        \<lparr>rowData = rowOf [(''n'', num 5)], index = 1, sortValue = num 5\<rparr> = Finite 1
   \<and> getSortComparator example_env (Some DataType_String)
        \<lparr>rowData = rowOf [(''n'', JNull)], index = 0, sortValue = JNull\<rparr>
        \<lparr>rowData = rowOf [(''n'', num 5)], index = 1, sortValue = num 5\<rparr> = Finite (- 1)
   \<and> getSortComparator example_env None
        \<lparr>rowData = rowOf [(''n'', num 5)], index = 1, sortValue = num 5\<rparr>
        \<lparr>rowData = rowOf [(''n'', JNull)], index = 0, sortValue = JNull\<rparr> = Finite 1"
  using null_key_ordering
    [of "\<lparr>rowData = rowOf [(''n'', JNull)], index = 0, sortValue = JNull\<rparr>"
        "\<lparr>rowData = rowOf [(''n'', num 5)], index = 1, sortValue = num 5\<rparr>" example_env]
  by (simp add: num_def)

section \<open>Properties of the sort\<close>

text \<open>
  Claim C1, as it holds. Take two sort items whose sort keys are both \<^verbatim>\<open>null\<close> or
  \<^verbatim>\<open>undefined\<close>, or are the same key, where under Number and NumberOrdinal that key reads
  as a finite number, under String its lower-cased text is equal to itself for
  \<^verbatim>\<open>localeCompare\<close>, and under any other type, or none, it is not NaN. Then the
  comparator returns the difference of the indices: a negative number exactly when the
  first index is the smaller, a positive one exactly when it is the larger. And take two
  rows with such keys at positions \<open>i < j\<close>, a comparator that is consistent on the sort
  items of the rows, and a host whose sort returns the sort items in the comparator's
  order, as the standard asks of it: then the two rows come out of an ascending
  \<^verbatim>\<open>sortData\<close> in this order, and the host's result is the one of the model.
\<close>

theorem equal_keys_ordered_by_index:
  assumes "(isNullish ka \<and> isNullish kb)
           \<or> (ka = kb
              \<and> (case ty of
                    Some DataType_Number \<Rightarrow> \<exists>x. parseFloat e ka = Finite x
                  | Some DataType_NumberOrdinal \<Rightarrow> \<exists>x. parseFloat e ka = Finite x
                  | Some DataType_String \<Rightarrow>
                      localeCompare e (toLowerCase e (toString e ka))
                        (toLowerCase e (toString e ka)) = 0
                  | _ \<Rightarrow> ka \<noteq> JNum NaN))"
  shows "(sortValue a = ka \<and> sortValue b = kb \<longrightarrow>
            getSortComparator e ty a b = index_minus (index a) (index b)
            \<and> isNegative (getSortComparator e ty a b) = (index a < index b)
            \<and> isPositive (getSortComparator e ty a b) = (index b < index a))
       \<and> (getColumnById columns columnId = Some column
            \<and> ty = (case column_sortType column of
                       None \<Rightarrow> column_type column | Some t \<Rightarrow> Some t)
            \<and> i < j \<and> j < length data
            \<and> getSortValue e column (data ! i) i data columns = ka
            \<and> getSortValue e column (data ! j) j data columns = kb
            \<and> consistentOn (getSortComparator e ty) (toSortItems e column data columns)
            \<and> mset (hostSort (getSortComparator e ty) (toSortItems e column data columns))
                = mset (toSortItems e column data columns)
            \<and> sorted_wrt (\<lambda>a b. isNegative (getSortComparator e ty a b))
                (hostSort (getSortComparator e ty) (toSortItems e column data columns)) \<longrightarrow>
            (\<exists>perm us vs ws.
                mset perm = mset [0..<length data]
              \<and> rowsOf data (snd (sortDataWith hostSort e data columnId Ascending columns))
                  = map (\<lambda>n. data ! n) perm
              \<and> perm = us @ i # vs @ j # ws)
            \<and> sortDataWith hostSort e data columnId Ascending columns
                = sortData e data columnId Ascending columns)"
proof -
  have cmp: "getSortComparator e ty a b = index_minus (index a) (index b)"
    if "sortValue a = ka" "sortValue b = kb" for a b :: sortItem
    using assms unfolding that [symmetric] by (rule comparator_breaks_tie_by_index)
  have first: "sortValue a = ka \<and> sortValue b = kb \<longrightarrow>
            getSortComparator e ty a b = index_minus (index a) (index b)
            \<and> isNegative (getSortComparator e ty a b) = (index a < index b)
            \<and> isPositive (getSortComparator e ty a b) = (index b < index a)"
    by (simp add: cmp index_minus_sign)
  have second: "(\<exists>perm us vs ws.
                mset perm = mset [0..<length data]
              \<and> rowsOf data (snd (sortDataWith hostSort e data columnId Ascending columns))
                  = map (\<lambda>n. data ! n) perm
              \<and> perm = us @ i # vs @ j # ws)
            \<and> sortDataWith hostSort e data columnId Ascending columns
                = sortData e data columnId Ascending columns"
    if found: "getColumnById columns columnId = Some column"
      and ty: "ty = (case column_sortType column of
                       None \<Rightarrow> column_type column | Some t \<Rightarrow> Some t)"
      and ij: "i < j" "j < length data"
      and keys: "getSortValue e column (data ! i) i data columns = ka"
                "getSortValue e column (data ! j) j data columns = kb"
      and cons: "consistentOn (getSortComparator e ty) (toSortItems e column data columns)"
      and host: "mset (hostSort (getSortComparator e ty) (toSortItems e column data columns))
                = mset (toSortItems e column data columns)"
        "sorted_wrt (\<lambda>a b. isNegative (getSortComparator e ty a b))
                (hostSort (getSortComparator e ty) (toSortItems e column data columns))"
  proof -
    define items where "items = toSortItems e column data columns"
    define perm where "perm = map index (arraySort (getSortComparator e ty) items)"
    have same: "hostSort (getSortComparator e ty) items = arraySort (getSortComparator e ty) items"
      unfolding items_def using cons host by (rule host_agrees_with_model)
    have eq: "sortDataWith hostSort e data columnId Ascending columns
                = sortData e data columnId Ascending columns"
      unfolding sortDataWith_found [OF found] sortData_found [OF found]
      using same by (simp add: items_def ty)
    have "getSortComparator e ty (items ! i) (items ! j)
            = index_minus (index (items ! i)) (index (items ! j))"
      using ij keys by (intro cmp) (simp_all add: items_def nth_toSortItems)
    then have "getSortComparator e ty (items ! i) (items ! j) = index_minus i j"
      using ij by (simp add: items_def nth_toSortItems)
    then have neg: "isNegative (getSortComparator e ty (items ! i) (items ! j))"
      using ij(1) by (simp add: index_minus_sign)
    have "\<exists>us vs ws. perm = us @ i # vs @ j # ws"
      unfolding perm_def items_def
      using cons _ ij(2) _ neg [unfolded items_def]
      by (rule sorted_positions_in_order) (use ij in simp_all)
    then obtain us vs ws where split: "perm = us @ i # vs @ j # ws" by blast
    have p: "mset perm = mset [0..<length data]"
      unfolding perm_def items_def by (rule sorted_positions_permutation)
    have "rowsOf data (snd (sortData e data columnId Ascending columns))
                   = map (\<lambda>n. data ! n) perm"
      unfolding sortData_found [OF found] perm_def items_def ty
      by (simp add: sorted_rows_by_position)
    then have rows: "rowsOf data (snd (sortDataWith hostSort e data columnId Ascending columns))
                   = map (\<lambda>n. data ! n) perm"
      by (simp only: eq)
    from p rows split eq show ?thesis by blast
  qed
  from first second show ?thesis by blast
qed

theorem equal_keys_ordered_by_index_witness:
  "parseFloat example_env (num 1) = Finite 1
   \<and> getSortComparator example_env (Some DataType_Number)
       \<lparr>rowData = rowOf [(''n'', num 1), (''name'', JStr ''a'')], index = 0, sortValue = num 1\<rparr>
       \<lparr>rowData = rowOf [(''n'', num 1), (''name'', JStr ''b'')], index = 1, sortValue = num 1\<rparr>
     = Finite (- 1)
   \<and> getSortComparator example_env (Some DataType_Number)
       \<lparr>rowData = rowOf [(''name'', JStr ''a'')], index = 1, sortValue = JUndefined\<rparr>
       \<lparr>rowData = rowOf [(''n'', JNull), (''name'', JStr ''b'')], index = 0, sortValue = JNull\<rparr>
     = Finite 1
   \<and> getColumnById [plainColumn ''n'' (Some DataType_Number)] ''n''
     = Some (plainColumn ''n'' (Some DataType_Number))
   \<and> getSortValue example_env (plainColumn ''n'' (Some DataType_Number))
       (rowOf [(''n'', num 1), (''name'', JStr ''a'')]) 0
       [rowOf [(''n'', num 1), (''name'', JStr ''a'')],
        rowOf [(''n'', num 1), (''name'', JStr ''b'')],
        rowOf [(''n'', num 0), (''name'', JStr ''c'')]]
       [plainColumn ''n'' (Some DataType_Number)] = num 1
   \<and> getSortValue example_env (plainColumn ''n'' (Some DataType_Number))
       (rowOf [(''n'', num 1), (''name'', JStr ''b'')]) 1
       [rowOf [(''n'', num 1), (''name'', JStr ''a'')],
        rowOf [(''n'', num 1), (''name'', JStr ''b'')],
        rowOf [(''n'', num 0), (''name'', JStr ''c'')]]
       [plainColumn ''n'' (Some DataType_Number)] = num 1
   \<and> consistentOn (getSortComparator example_env (Some DataType_Number))
       (toSortItems example_env (plainColumn ''n'' (Some DataType_Number))
          [rowOf [(''n'', num 1), (''name'', JStr ''a'')],
           rowOf [(''n'', num 1), (''name'', JStr ''b'')],
           rowOf [(''n'', num 0), (''name'', JStr ''c'')]]
          [plainColumn ''n'' (Some DataType_Number)])
   \<and> map index
       (shortArraySortV8 (getSortComparator example_env (Some DataType_Number))
         (toSortItems example_env (plainColumn ''n'' (Some DataType_Number))
            [rowOf [(''n'', num 1), (''name'', JStr ''a'')],
             rowOf [(''n'', num 1), (''name'', JStr ''b'')],
             rowOf [(''n'', num 0), (''name'', JStr ''c'')]]
            [plainColumn ''n'' (Some DataType_Number)]))
     = [2, 0, 1]
   \<and> sorted_wrt (\<lambda>a b. isNegative (getSortComparator example_env (Some DataType_Number) a b))
       (shortArraySortV8 (getSortComparator example_env (Some DataType_Number))
         (toSortItems example_env (plainColumn ''n'' (Some DataType_Number))
            [rowOf [(''n'', num 1), (''name'', JStr ''a'')],
             rowOf [(''n'', num 1), (''name'', JStr ''b'')],
             rowOf [(''n'', num 0), (''name'', JStr ''c'')]]
            [plainColumn ''n'' (Some DataType_Number)]))
   \<and> map (\<lambda>r. r ''name'')
       (rowsOf []
         (snd (sortDataWith shortArraySortV8 example_env
            [rowOf [(''n'', num 1), (''name'', JStr ''a'')],
             rowOf [(''n'', num 1), (''name'', JStr ''b'')],
             rowOf [(''n'', num 0), (''name'', JStr ''c'')]]
            ''n'' Ascending [plainColumn ''n'' (Some DataType_Number)])))
     = [JStr ''c'', JStr ''a'', JStr ''b'']
   \<and> map (\<lambda>r. r ''name'')
       (rowsOf []
         (snd (sortData example_env
            [rowOf [(''n'', num 1), (''name'', JStr ''a'')],
             rowOf [(''n'', num 1), (''name'', JStr ''b'')],
             rowOf [(''n'', num 0), (''name'', JStr ''c'')]]
            ''n'' Ascending [plainColumn ''n'' (Some DataType_Number)])))
     = [JStr ''c'', JStr ''a'', JStr ''b'']"
  using equal_keys_ordered_by_index
    [where ka = "num 1" and kb = "num 1" and ty = "Some DataType_Number" and e = example_env
       and hostSort = shortArraySortV8
       and a = "\<lparr>rowData = rowOf [(''n'', num 1), (''name'', JStr ''a'')], index = 0,
                 sortValue = num 1\<rparr>"
       and b = "\<lparr>rowData = rowOf [(''n'', num 1), (''name'', JStr ''b'')], index = 1,
                 sortValue = num 1\<rparr>"
       and columns = "[plainColumn ''n'' (Some DataType_Number)]" and columnId = "''n''"
       and column = "plainColumn ''n'' (Some DataType_Number)" and i = 0 and j = 1
       and data = "[rowOf [(''n'', num 1), (''name'', JStr ''a'')],
                    rowOf [(''n'', num 1), (''name'', JStr ''b'')],
                    rowOf [(''n'', num 0), (''name'', JStr ''c'')]]"]
    equal_keys_ordered_by_index
    [where ka = JUndefined and kb = JNull and ty = "Some DataType_Number" and e = example_env
       and a = "\<lparr>rowData = rowOf [(''name'', JStr ''a'')], index = 1,
                 sortValue = JUndefined\<rparr>"
       and b = "\<lparr>rowData = rowOf [(''n'', JNull), (''name'', JStr ''b'')], index = 0,
                 sortValue = JNull\<rparr>"]
  by (simp add: example_simps host_simps consistentOn_def)

text \<open>
  Without these conditions neither part holds. Under Number, two items whose keys are
  both the text \<^verbatim>\<open>abc\<close> have parsed keys whose difference is NaN; it is not \<^verbatim>\<open>=== 0\<close>,
  and the comparator returns it, neither negative nor positive, where the difference of
  the indices 0 and 1 is \<open>-1\<close>. Under the default comparator, two items whose keys are
  both NaN get 1. And with one key \<^verbatim>\<open>abc\<close> among the rows the comparator is not
  consistent: on the V8 sort, the rows at positions 5 and 6, both of key 0, come out of
  an ascending \<^verbatim>\<open>sortData\<close> with the one from position 6 first.
\<close>

theorem equal_keys_not_ordered_by_index:
  "sortValue \<lparr>rowData = rowOf [(''n'', JStr ''abc'')], index = 0, sortValue = JStr ''abc''\<rparr>
     = sortValue \<lparr>rowData = rowOf [(''n'', JStr ''abc'')], index = 1, sortValue = JStr ''abc''\<rparr>
   \<and> getSortComparator example_env (Some DataType_Number)
       \<lparr>rowData = rowOf [(''n'', JStr ''abc'')], index = 0, sortValue = JStr ''abc''\<rparr>
       \<lparr>rowData = rowOf [(''n'', JStr ''abc'')], index = 1, sortValue = JStr ''abc''\<rparr>
     = NaN
   \<and> \<not> isNegative
         (getSortComparator example_env (Some DataType_Number)
            \<lparr>rowData = rowOf [(''n'', JStr ''abc'')], index = 0, sortValue = JStr ''abc''\<rparr>
            \<lparr>rowData = rowOf [(''n'', JStr ''abc'')], index = 1, sortValue = JStr ''abc''\<rparr>)
   \<and> index_minus 0 1 = Finite (- 1)
   \<and> getSortComparator example_env None
       \<lparr>rowData = rowOf [(''n'', JNum NaN)], index = 0, sortValue = JNum NaN\<rparr>
       \<lparr>rowData = rowOf [(''n'', JNum NaN)], index = 1, sortValue = JNum NaN\<rparr>
     = Finite 1
   \<and> getSortValue example_env (plainColumn ''n'' (Some DataType_Number))
       (rowOf [(''n'', num 0), (''id'', num 5)]) 5 [] [plainColumn ''n'' (Some DataType_Number)]
     = getSortValue example_env (plainColumn ''n'' (Some DataType_Number))
         (rowOf [(''n'', num 0), (''id'', num 6)]) 6 [] [plainColumn ''n'' (Some DataType_Number)]
   \<and> map (\<lambda>r. r ''id'')
       (rowsOf []
         (snd (sortDataWith shortArraySortV8 example_env
            [rowOf [(''n'', num 0), (''id'', num 0)], rowOf [(''n'', num 0), (''id'', num 1)],
             rowOf [(''n'', num 1), (''id'', num 2)], rowOf [(''n'', num 0), (''id'', num 3)],
             rowOf [(''n'', JStr ''abc''), (''id'', num 4)],
             rowOf [(''n'', num 0), (''id'', num 5)], rowOf [(''n'', num 0), (''id'', num 6)]]
            ''n'' Ascending [plainColumn ''n'' (Some DataType_Number)])))
     = [num 0, num 1, num 3, num 6, num 2, num 4, num 5]"
  by (simp add: example_simps host_simps js_less_than_def)

text \<open>
  Claim C2, as it holds. When the column identifier resolves to a column, \<^verbatim>\<open>sortData\<close>
  with direction Descending returns the reverse of what it returns with direction
  Ascending, on any host and on the model. When the comparator is consistent on the
  sort items and the host returns them in the comparator's order, both results are the
  rows taken at a permutation of their positions, and whenever the comparator puts the
  row at position \<open>i\<close> before the row at position \<open>j\<close> (as for two rows whose tie it
  breaks by index, \<open>i < j\<close>), position \<open>j\<close> comes before position \<open>i\<close> in the
  descending result: the groups of ties are reversed too.
\<close>

theorem sortData_descending_reverses_ascending:
  assumes "getColumnById columns columnId = Some column"
  shows "sortDataWith hostSort e data columnId Descending columns
           = ([], NewArray (rev (rowsOf data
                (snd (sortDataWith hostSort e data columnId Ascending columns)))))
       \<and> sortData e data columnId Descending columns
           = ([], NewArray (rev (rowsOf data (snd (sortData e data columnId Ascending columns)))))
       \<and> (consistentOn
             (getSortComparator e
                (case column_sortType column of
                   None \<Rightarrow> column_type column | Some t \<Rightarrow> Some t))
             (toSortItems e column data columns)
           \<and> mset (hostSort
                (getSortComparator e
                   (case column_sortType column of
                      None \<Rightarrow> column_type column | Some t \<Rightarrow> Some t))
                (toSortItems e column data columns))
               = mset (toSortItems e column data columns)
           \<and> sorted_wrt
               (\<lambda>a b. isNegative
                  (getSortComparator e
                     (case column_sortType column of
                        None \<Rightarrow> column_type column | Some t \<Rightarrow> Some t)
                     a b))
               (hostSort
                  (getSortComparator e
                     (case column_sortType column of
                        None \<Rightarrow> column_type column | Some t \<Rightarrow> Some t))
                  (toSortItems e column data columns))
           \<longrightarrow> (\<exists>perm.
                  mset perm = mset [0..<length data]
                \<and> rowsOf data (snd (sortDataWith hostSort e data columnId Ascending columns))
                    = map (\<lambda>k. data ! k) perm
                \<and> rowsOf data (snd (sortDataWith hostSort e data columnId Descending columns))
                    = map (\<lambda>k. data ! k) (rev perm)
                \<and> (\<forall>i j. i < length data \<and> j < length data \<and> i \<noteq> j
                      \<and> isNegative
                            (getSortComparator e
                               (case column_sortType column of
                                  None \<Rightarrow> column_type column | Some t \<Rightarrow> Some t)
                               (toSortItems e column data columns ! i)
                               (toSortItems e column data columns ! j))
                      \<longrightarrow> (\<exists>us vs ws. rev perm = us @ j # vs @ i # ws))))"
proof -
  define c where "c = getSortComparator e
    (case column_sortType column of None \<Rightarrow> column_type column | Some t \<Rightarrow> Some t)"
  define items where "items = toSortItems e column data columns"
  define perm where "perm = map index (arraySort c items)"
  have host: "sortDataWith hostSort e data columnId Descending columns
           = ([], NewArray (rev (rowsOf data
                (snd (sortDataWith hostSort e data columnId Ascending columns)))))"
    by (simp add: sortDataWith_found [OF assms])
  have model: "sortData e data columnId Descending columns
           = ([], NewArray (rev (rowsOf data (snd (sortData e data columnId Ascending columns)))))"
    by (simp add: sortData_found [OF assms])
  have third: "\<exists>perm.
                  mset perm = mset [0..<length data]
                \<and> rowsOf data (snd (sortDataWith hostSort e data columnId Ascending columns))
                    = map (\<lambda>k. data ! k) perm
                \<and> rowsOf data (snd (sortDataWith hostSort e data columnId Descending columns))
                    = map (\<lambda>k. data ! k) (rev perm)
                \<and> (\<forall>i j. i < length data \<and> j < length data \<and> i \<noteq> j
                      \<and> isNegative (c (items ! i) (items ! j))
                      \<longrightarrow> (\<exists>us vs ws. rev perm = us @ j # vs @ i # ws))"
    if cons: "consistentOn c items"
      and h: "mset (hostSort c items) = mset items"
        "sorted_wrt (\<lambda>a b. isNegative (c a b)) (hostSort c items)"
  proof -
    have same: "hostSort c items = arraySort c items"
      unfolding items_def using cons h unfolding items_def by (rule host_agrees_with_model)
    have asc: "rowsOf data (snd (sortDataWith hostSort e data columnId Ascending columns))
               = map (\<lambda>k. data ! k) perm"
      unfolding sortDataWith_found [OF assms] perm_def
      using same by (simp add: c_def items_def sorted_rows_by_position)
    have desc: "rowsOf data (snd (sortDataWith hostSort e data columnId Descending columns))
               = map (\<lambda>k. data ! k) (rev perm)"
      unfolding host by (simp add: asc rev_map)
    have p: "mset perm = mset [0..<length data]"
      unfolding perm_def items_def by (rule sorted_positions_permutation)
    have ties: "\<exists>us vs ws. rev perm = us @ j # vs @ i # ws"
      if "i < length data" and "j < length data" and "i \<noteq> j"
        and "isNegative (c (items ! i) (items ! j))" for i j
    proof -
      from cons that have "\<exists>us vs ws. perm = us @ i # vs @ j # ws"
        unfolding perm_def items_def by (rule sorted_positions_in_order)
      then obtain us vs ws where "perm = us @ i # vs @ j # ws" by blast
      then have "rev perm = rev ws @ j # rev vs @ i # rev us" by simp
      then show ?thesis by blast
    qed
    from p asc desc ties show ?thesis by blast
  qed
  show ?thesis
    using host model third unfolding c_def items_def by blast
qed

theorem sortData_descending_reverses_ascending_witness:
  "getColumnById [plainColumn ''n'' (Some DataType_Number)] ''n''
     = Some (plainColumn ''n'' (Some DataType_Number))
   \<and> consistentOn (getSortComparator example_env (Some DataType_Number))
       (toSortItems example_env (plainColumn ''n'' (Some DataType_Number))
          [rowOf [(''n'', num 1), (''name'', JStr ''a'')],
           rowOf [(''n'', num 1), (''name'', JStr ''b'')],
           rowOf [(''n'', num 0), (''name'', JStr ''c'')]]
          [plainColumn ''n'' (Some DataType_Number)])
   \<and> map index
       (shortArraySortV8 (getSortComparator example_env (Some DataType_Number))
         (toSortItems example_env (plainColumn ''n'' (Some DataType_Number))
            [rowOf [(''n'', num 1), (''name'', JStr ''a'')],
             rowOf [(''n'', num 1), (''name'', JStr ''b'')],
             rowOf [(''n'', num 0), (''name'', JStr ''c'')]]
            [plainColumn ''n'' (Some DataType_Number)]))
     = [2, 0, 1]
   \<and> sorted_wrt (\<lambda>a b. isNegative (getSortComparator example_env (Some DataType_Number) a b))
       (shortArraySortV8 (getSortComparator example_env (Some DataType_Number))
         (toSortItems example_env (plainColumn ''n'' (Some DataType_Number))
            [rowOf [(''n'', num 1), (''name'', JStr ''a'')],
             rowOf [(''n'', num 1), (''name'', JStr ''b'')],
             rowOf [(''n'', num 0), (''name'', JStr ''c'')]]
            [plainColumn ''n'' (Some DataType_Number)]))
   \<and> isNegative (getSortComparator example_env (Some DataType_Number)
        (toSortItems example_env (plainColumn ''n'' (Some DataType_Number))
          [rowOf [(''n'', num 1), (''name'', JStr ''a'')],
           rowOf [(''n'', num 1), (''name'', JStr ''b'')],
           rowOf [(''n'', num 0), (''name'', JStr ''c'')]]
          [plainColumn ''n'' (Some DataType_Number)] ! 0)
        (toSortItems example_env (plainColumn ''n'' (Some DataType_Number))
          [rowOf [(''n'', num 1), (''name'', JStr ''a'')],
           rowOf [(''n'', num 1), (''name'', JStr ''b'')],
           rowOf [(''n'', num 0), (''name'', JStr ''c'')]]
          [plainColumn ''n'' (Some DataType_Number)] ! 1))
   \<and> map (\<lambda>r. r ''name'')
       (rowsOf []
         (snd (sortDataWith shortArraySortV8 example_env
            [rowOf [(''n'', num 1), (''name'', JStr ''a'')],
             rowOf [(''n'', num 1), (''name'', JStr ''b'')],
             rowOf [(''n'', num 0), (''name'', JStr ''c'')]]
            ''n'' Ascending [plainColumn ''n'' (Some DataType_Number)])))
     = [JStr ''c'', JStr ''a'', JStr ''b'']
   \<and> map (\<lambda>r. r ''name'')
       (rowsOf []
         (snd (sortDataWith shortArraySortV8 example_env
            [rowOf [(''n'', num 1), (''name'', JStr ''a'')],
             rowOf [(''n'', num 1), (''name'', JStr ''b'')],
             rowOf [(''n'', num 0), (''name'', JStr ''c'')]]
            ''n'' Descending [plainColumn ''n'' (Some DataType_Number)])))
     = [JStr ''b'', JStr ''a'', JStr ''c'']
   \<and> map (\<lambda>r. r ''name'')
       (rowsOf []
         (snd (sortData example_env
            [rowOf [(''n'', num 1), (''name'', JStr ''a'')],
             rowOf [(''n'', num 1), (''name'', JStr ''b'')],
             rowOf [(''n'', num 0), (''name'', JStr ''c'')]]
            ''n'' Descending [plainColumn ''n'' (Some DataType_Number)])))
     = [JStr ''b'', JStr ''a'', JStr ''c'']"
  using sortData_descending_reverses_ascending
    [where columns = "[plainColumn ''n'' (Some DataType_Number)]" and columnId = "''n''"
       and column = "plainColumn ''n'' (Some DataType_Number)" and e = example_env
       and hostSort = shortArraySortV8
       and data = "[rowOf [(''n'', num 1), (''name'', JStr ''a'')],
          rowOf [(''n'', num 1), (''name'', JStr ''b'')],
          rowOf [(''n'', num 0), (''name'', JStr ''c'')]]"]
  by (simp add: example_simps host_simps consistentOn_def)

text \<open>
  When the comparator is not consistent, a group of ties need not come out reversed:
  with one key \<^verbatim>\<open>abc\<close> among the rows, on the V8 sort, the rows at positions 5 and 6,
  both of key 0, come out of a descending \<^verbatim>\<open>sortData\<close> in their original order.
\<close>

theorem descending_ties_not_reversed:
  "getColumnById [plainColumn ''n'' (Some DataType_Number)] ''n''
     = Some (plainColumn ''n'' (Some DataType_Number))
   \<and> getSortValue example_env (plainColumn ''n'' (Some DataType_Number))
       (rowOf [(''n'', num 0), (''id'', num 5)]) 5 [] [plainColumn ''n'' (Some DataType_Number)]
     = getSortValue example_env (plainColumn ''n'' (Some DataType_Number))
         (rowOf [(''n'', num 0), (''id'', num 6)]) 6 [] [plainColumn ''n'' (Some DataType_Number)]
   \<and> map (\<lambda>r. r ''id'')
       (rowsOf []
         (snd (sortDataWith shortArraySortV8 example_env
            [rowOf [(''n'', num 0), (''id'', num 0)], rowOf [(''n'', num 0), (''id'', num 1)],
             rowOf [(''n'', num 1), (''id'', num 2)], rowOf [(''n'', num 0), (''id'', num 3)],
             rowOf [(''n'', JStr ''abc''), (''id'', num 4)],
             rowOf [(''n'', num 0), (''id'', num 5)], rowOf [(''n'', num 0), (''id'', num 6)]]
            ''n'' Descending [plainColumn ''n'' (Some DataType_Number)])))
     = [num 5, num 4, num 2, num 6, num 3, num 1, num 0]"
  by (simp add: example_simps host_simps)

text \<open>
  Claim C4, as it holds. When no column has the target identifier, \<^verbatim>\<open>sortData\<close> returns
  the array it was given, whatever the rows and the direction, and throws nothing; it
  writes one warning, with the identifier and the columns, when \<^verbatim>\<open>NODE_ENV\<close> is not
  \<^verbatim>\<open>production\<close>, and no warning when it is.
\<close>

theorem sortData_unknown_column:
  assumes "\<forall>c \<in> set columns. column_id c \<noteq> columnId"
  shows "sortData e data columnId sortDirection columns
           = (if production e then [] else [NoColumnFound columnId columns], InputArray)
       \<and> rowsOf data (snd (sortData e data columnId sortDirection columns)) = data"
proof -
  from assms have "getColumnById columns columnId = None"
    by (simp add: getColumnById_None_iff)
  then show ?thesis by (simp add: sortData_def)
qed

theorem sortData_unknown_column_witness:
  "column_id (plainColumn ''a'' (Some DataType_Number)) \<noteq> ''zz''
   \<and> sortData example_env [rowOf [(''a'', num 2)], rowOf [(''a'', num 1)]] ''zz'' Descending
        [plainColumn ''a'' (Some DataType_Number)]
      = ([NoColumnFound ''zz'' [plainColumn ''a'' (Some DataType_Number)]], InputArray)
   \<and> rowsOf [rowOf [(''a'', num 2)], rowOf [(''a'', num 1)]]
        (snd (sortData example_env [rowOf [(''a'', num 2)], rowOf [(''a'', num 1)]] ''zz''
                Descending [plainColumn ''a'' (Some DataType_Number)]))
      = [rowOf [(''a'', num 2)], rowOf [(''a'', num 1)]]"
  using sortData_unknown_column
    [of "[plainColumn ''a'' (Some DataType_Number)]" "''zz''" example_env
        "[rowOf [(''a'', num 2)], rowOf [(''a'', num 1)]]" Descending]
  by (simp add: plainColumn_def example_env_def)

text \<open>In production, an unknown column identifier gives no warning at all.\<close>

theorem sortData_unknown_column_silent_in_production:
  "getColumnById [plainColumn ''a'' (Some DataType_Number)] ''zz'' = None
   \<and> production (example_env\<lparr>production := True\<rparr>)
   \<and> sortData (example_env\<lparr>production := True\<rparr>)
        [rowOf [(''a'', num 2)], rowOf [(''a'', num 1)]] ''zz'' Ascending
        [plainColumn ''a'' (Some DataType_Number)]
      = ([], InputArray)"
  by (simp add: sortData_def plainColumn_def)

text \<open>
  Claim C7. For the column that \<^verbatim>\<open>sortData\<close> resolves, the rows are sorted with the
  comparator that \<^verbatim>\<open>getSortComparator\<close> returns for \<^verbatim>\<open>column.sortType\<close> when that is
  set, and for \<^verbatim>\<open>column.type\<close> when it is not.
\<close>

theorem sortData_effective_type:
  assumes "getColumnById columns columnId = Some column"
  shows "(\<forall>t. column_sortType column = Some t \<longrightarrow>
            rowsOf data (snd (sortData e data columnId Ascending columns))
              = map rowData (arraySort (getSortComparator e (Some t))
                               (toSortItems e column data columns)))
       \<and> (column_sortType column = None \<longrightarrow>
            rowsOf data (snd (sortData e data columnId Ascending columns))
              = map rowData (arraySort (getSortComparator e (column_type column))
                               (toSortItems e column data columns)))
       \<and> rowsOf data (snd (sortData e data columnId Descending columns))
              = rev (rowsOf data (snd (sortData e data columnId Ascending columns)))"
  by (auto simp: sortData_found [OF assms])

theorem sortData_effective_type_witness:
  "getColumnById
     [\<lparr>column_id = ''n'', column_value = ValueUndefined, column_sortValue = None,
       column_type = Some DataType_Number, column_sortType = Some DataType_String\<rparr>] ''n''
     = Some \<lparr>column_id = ''n'', column_value = ValueUndefined, column_sortValue = None,
             column_type = Some DataType_Number, column_sortType = Some DataType_String\<rparr>
   \<and> map (\<lambda>r. r ''n'')
        (rowsOf [rowOf [(''n'', JStr ''9'')], rowOf [(''n'', JStr ''10'')]]
          (snd (sortData example_env [rowOf [(''n'', JStr ''9'')], rowOf [(''n'', JStr ''10'')]]
                  ''n'' Ascending
                  [\<lparr>column_id = ''n'', column_value = ValueUndefined, column_sortValue = None,
                    column_type = Some DataType_Number,
                    column_sortType = Some DataType_String\<rparr>])))
      = [JStr ''10'', JStr ''9'']
   \<and> map (\<lambda>r. r ''n'')
        (rowsOf [rowOf [(''n'', JStr ''9'')], rowOf [(''n'', JStr ''10'')]]
          (snd (sortData example_env [rowOf [(''n'', JStr ''9'')], rowOf [(''n'', JStr ''10'')]]
                  ''n'' Ascending [plainColumn ''n'' (Some DataType_Number)])))
      = [JStr ''9'', JStr ''10'']"
  using sortData_effective_type
    [of "[\<lparr>column_id = ''n'', column_value = ValueUndefined, column_sortValue = None,
       column_type = Some DataType_Number, column_sortType = Some DataType_String\<rparr>]" "''n''"
       "\<lparr>column_id = ''n'', column_value = ValueUndefined, column_sortValue = None,
             column_type = Some DataType_Number, column_sortType = Some DataType_String\<rparr>"
       "[rowOf [(''n'', JStr ''9'')], rowOf [(''n'', JStr ''10'')]]" example_env]
    sortData_effective_type
    [of "[plainColumn ''n'' (Some DataType_Number)]" "''n''"
       "plainColumn ''n'' (Some DataType_Number)"
       "[rowOf [(''n'', JStr ''9'')], rowOf [(''n'', JStr ''10'')]]" example_env]
  by (simp add: example_simps)

text \<open>
  Claim C10. When the column identifier resolves to a column, \<^verbatim>\<open>sortData\<close> returns a
  new array, not the one it was given, that holds the rows of the input at a
  permutation of their positions: the same rows, each as often as in the input, none
  dropped, added or replaced.
\<close>

theorem sortData_permutes_rows:
  assumes "getColumnById columns columnId = Some column"
  shows "\<exists>rows perm.
           sortData e data columnId sortDirection columns = ([], NewArray rows)
         \<and> mset perm = mset [0..<length data]
         \<and> rows = map (\<lambda>k. data ! k) perm
         \<and> mset rows = mset data
         \<and> length rows = length data"
proof -
  define c where "c = getSortComparator e
    (case column_sortType column of None \<Rightarrow> column_type column | Some t \<Rightarrow> Some t)"
  define perm0 where "perm0 = map index (arraySort c (toSortItems e column data columns))"
  define perm where "perm = (if sortDirection = Descending then rev perm0 else perm0)"
  have p0: "mset perm0 = mset [0..<length data]"
    unfolding perm0_def by (rule sorted_positions_permutation)
  then have p: "mset perm = mset [0..<length data]"
    by (simp add: perm_def)
  have rows: "sortData e data columnId sortDirection columns
                = ([], NewArray (map (\<lambda>k. data ! k) perm))"
    unfolding sortData_found [OF assms] perm_def perm0_def c_def sorted_rows_by_position
    by (simp add: rev_map)
  have m: "mset (map (\<lambda>k. data ! k) perm) = mset data"
    using p by (rule mset_rows_by_position)
  then have "length (map (\<lambda>k. data ! k) perm) = length data"
    by (metis size_mset)
  with rows p m show ?thesis by blast
qed

theorem sortData_permutes_rows_witness:
  "getColumnById [plainColumn ''id'' (Some DataType_Number)] ''id''
     = Some (plainColumn ''id'' (Some DataType_Number))
   \<and> sortData example_env
        [rowOf [(''id'', num 3)], rowOf [(''id'', num 1)], rowOf [(''id'', num 2)]]
        ''id'' Ascending [plainColumn ''id'' (Some DataType_Number)]
      = ([], NewArray [rowOf [(''id'', num 1)], rowOf [(''id'', num 2)], rowOf [(''id'', num 3)]])
   \<and> sortData example_env
        [rowOf [(''id'', num 3)], rowOf [(''id'', num 1)], rowOf [(''id'', num 2)]]
        ''id'' Descending [plainColumn ''id'' (Some DataType_Number)]
      = ([], NewArray [rowOf [(''id'', num 3)], rowOf [(''id'', num 2)], rowOf [(''id'', num 1)]])
   \<and> mset [1, 2, 0] = mset [0..<length
        [rowOf [(''id'', num 3)], rowOf [(''id'', num 1)], rowOf [(''id'', num 2)]]]"
  using sortData_permutes_rows
    [of "[plainColumn ''id'' (Some DataType_Number)]" "''id''"
        "plainColumn ''id'' (Some DataType_Number)" example_env
        "[rowOf [(''id'', num 3)], rowOf [(''id'', num 1)], rowOf [(''id'', num 2)]]" Ascending]
  by (simp add: example_simps upt_rec)

section \<open>Properties of cell data, sort values and column lookup\<close>

text \<open>
  Claim C5. \<^verbatim>\<open>getCellData\<close> resolves the cell in this order: when \<^verbatim>\<open>column.value\<close> is a
  function, the result is that function applied to the row, the row number, all rows and
  all columns; otherwise, when \<^verbatim>\<open>column.value\<close> is a key, the result is the row read
  at that key; otherwise (\<^verbatim>\<open>null\<close> or \<^verbatim>\<open>undefined\<close>) the result is the row read at
  \<^verbatim>\<open>column.id\<close>.
\<close>

theorem getCellData_resolution_order:
  "(\<forall>f. column_value column = ValueFunction f \<longrightarrow>
        getCellData e column r rowNumber tableData columns
          = callValue e f r rowNumber tableData columns)
   \<and> (\<forall>k. column_value column = ValueKey k \<longrightarrow>
        getCellData e column r rowNumber tableData columns = r k)
   \<and> (column_value column = ValueNull \<or> column_value column = ValueUndefined \<longrightarrow>
        getCellData e column r rowNumber tableData columns = r (column_id column))"
  by (auto simp: getCellData_def)

theorem getCellData_resolution_order_witness:
  "getCellData example_env
     \<lparr>column_id = ''a'', column_value = ValueFunction 0, column_sortValue = None,
      column_type = None, column_sortType = None\<rparr>
     (rowOf [(''a'', num 7), (''b'', JStr ''x'')]) 4 [] [] = num 4
   \<and> getCellData example_env
     \<lparr>column_id = ''a'', column_value = ValueKey ''b'', column_sortValue = None,
      column_type = None, column_sortType = None\<rparr>
     (rowOf [(''a'', num 7), (''b'', JStr ''x'')]) 4 [] [] = JStr ''x''
   \<and> getCellData example_env
     \<lparr>column_id = ''a'', column_value = ValueNull, column_sortValue = None,
      column_type = None, column_sortType = None\<rparr>
     (rowOf [(''a'', num 7), (''b'', JStr ''x'')]) 4 [] [] = num 7"
  using getCellData_resolution_order
    [of "\<lparr>column_id = ''a'', column_value = ValueFunction 0, column_sortValue = None,
      column_type = None, column_sortType = None\<rparr>" example_env
      "rowOf [(''a'', num 7), (''b'', JStr ''x'')]" 4 "[]" "[]"]
    getCellData_resolution_order
    [of "\<lparr>column_id = ''a'', column_value = ValueKey ''b'', column_sortValue = None,
      column_type = None, column_sortType = None\<rparr>" example_env
      "rowOf [(''a'', num 7), (''b'', JStr ''x'')]" 4 "[]" "[]"]
    getCellData_resolution_order
    [of "\<lparr>column_id = ''a'', column_value = ValueNull, column_sortValue = None,
      column_type = None, column_sortType = None\<rparr>" example_env
      "rowOf [(''a'', num 7), (''b'', JStr ''x'')]" 4 "[]" "[]"]
  by (simp add: example_env_def example_callValue_def rowOf_def num_def)

text \<open>
  Claim C6. \<^verbatim>\<open>getSortValueFromCellData\<close> returns \<^verbatim>\<open>column.sortValue(cellData, rowData)\<close>
  when \<^verbatim>\<open>column.sortValue\<close> is set and the cell data itself when it is not. It returns
  a value and nothing else: there is no state it could change.
\<close>

theorem getSortValueFromCellData_cases:
  "(\<forall>f. column_sortValue column = Some f \<longrightarrow>
        getSortValueFromCellData e cellData column r = callSortValue e f cellData r)
   \<and> (column_sortValue column = None \<longrightarrow>
        getSortValueFromCellData e cellData column r = cellData)"
  by (simp add: getSortValueFromCellData_def)

theorem getSortValueFromCellData_cases_witness:
  "getSortValueFromCellData example_env (JStr ''x'')
     \<lparr>column_id = ''a'', column_value = ValueUndefined, column_sortValue = Some 0,
      column_type = None, column_sortType = None\<rparr>
     (rowOf [(''a'', JStr ''x''), (''rank'', num 2)]) = num 2
   \<and> getSortValueFromCellData example_env (JStr ''x'') (plainColumn ''a'' None)
     (rowOf [(''a'', JStr ''x''), (''rank'', num 2)]) = JStr ''x''"
  using getSortValueFromCellData_cases
    [of "\<lparr>column_id = ''a'', column_value = ValueUndefined, column_sortValue = Some 0,
      column_type = None, column_sortType = None\<rparr>" example_env "JStr ''x''"
      "rowOf [(''a'', JStr ''x''), (''rank'', num 2)]"]
    getSortValueFromCellData_cases
    [of "plainColumn ''a'' None" example_env "JStr ''x''"
      "rowOf [(''a'', JStr ''x''), (''rank'', num 2)]"]
  by (simp add: example_env_def example_callSortValue_def rowOf_def num_def plainColumn_def)

text \<open>
  Claim C8. \<^verbatim>\<open>getColumnById\<close> returns the first column, in the order of the collection,
  whose id is the target: the column at some position, with no column of that id at any
  earlier position, so that of several columns sharing the id the earliest is returned.
  It returns nothing exactly when no column has the id.
\<close>

theorem getColumnById_first_match:
  "(case getColumnById columns columnId of
      None \<Rightarrow> \<forall>c \<in> set columns. column_id c \<noteq> columnId
    | Some column \<Rightarrow>
        \<exists>i < length columns. columns ! i = column \<and> column_id column = columnId
          \<and> (\<forall>j < i. column_id (columns ! j) \<noteq> columnId))"
proof (induction columns)
  case Nil
  show ?case by simp
next
  case (Cons c cs)
  show ?case
  proof (cases "column_id c = columnId")
    case True
    then show ?thesis by auto
  next
    case False
    show ?thesis
    proof (cases "getColumnById cs columnId")
      case None
      with Cons False show ?thesis by simp
    next
      case (Some column)
      with Cons obtain i where i: "i < length cs" "cs ! i = column" "column_id column = columnId"
        "\<forall>j < i. column_id (cs ! j) \<noteq> columnId" by auto
      have "\<forall>j < Suc i. column_id ((c # cs) ! j) \<noteq> columnId"
        using False i(4) by (simp add: nth_Cons split: nat.split)
      with i have "Suc i < length (c # cs) \<and> (c # cs) ! Suc i = column
        \<and> column_id column = columnId \<and> (\<forall>j < Suc i. column_id ((c # cs) ! j) \<noteq> columnId)"
        by simp
      then have "\<exists>k < length (c # cs). (c # cs) ! k = column \<and> column_id column = columnId
        \<and> (\<forall>j < k. column_id ((c # cs) ! j) \<noteq> columnId)" by blast
      with False Some show ?thesis by simp
    qed
  qed
qed

theorem getColumnById_first_match_witness:
  "getColumnById [plainColumn ''a'' None, plainColumn ''b'' (Some DataType_Number),
       plainColumn ''b'' (Some DataType_String)] ''b''
     = Some (plainColumn ''b'' (Some DataType_Number))
   \<and> [plainColumn ''a'' None, plainColumn ''b'' (Some DataType_Number),
       plainColumn ''b'' (Some DataType_String)] ! 1 = plainColumn ''b'' (Some DataType_Number)
   \<and> getColumnById [plainColumn ''a'' None, plainColumn ''b'' None] ''c'' = None
   \<and> column_id (plainColumn ''a'' None) \<noteq> ''c'' \<and> column_id (plainColumn ''b'' None) \<noteq> ''c''"
  using getColumnById_first_match [of "[plainColumn ''a'' None, plainColumn ''b'' None]" "''c''"]
    getColumnById_first_match [of "[plainColumn ''a'' None, plainColumn ''b'' (Some DataType_Number),
       plainColumn ''b'' (Some DataType_String)]" "''b''"]
  by (simp add: plainColumn_def)

section \<open>Properties of the validation\<close>

text \<open>Columns that are absent give no warning.\<close>

lemma validateColumns_absent: "validateColumns None = Inr []"
  by (simp add: validateColumns_def)

text \<open>The example of the spec: one warning, for the identifier at positions 0 and 2.\<close>

lemma validateColumns_example:
  "validateColumns (Some [plainColumn ''a'' None, plainColumn ''b'' None, plainColumn ''a'' None])
     = Inr [DuplicateColumnId ''a'' [0, 2] [plainColumn ''a'' None, plainColumn ''a'' None]]"
  by (simp add: validateColumns_def recordId_def objectPrototypeKeys_def objectKeys_def
      isArrayIndex_def isDigit_def decimalValue_def plainColumn_def upt_rec)

text \<open>
  As long as no identifier names an inherited property, the first loop records for each
  identifier the positions of the columns that have it.
\<close>

lemma recordId_own_or_new:
  assumes "column_id c \<notin> set objectPrototypeKeys"
  shows "recordId ids c k =
           Inr (AList.update (column_id c)
                  ((case map_of ids (column_id c) of None \<Rightarrow> [] | Some ps \<Rightarrow> ps) @ [k]) ids)"
  using assms by (simp add: recordId_def split: option.split)

lemma zip_from_Cons:
  "zip [k..<k + length (c # cs)] (c # cs) = (k, c) # zip [Suc k..<Suc k + length cs] cs"
proof -
  have "[k..<k + length (c # cs)] = k # [Suc k..<Suc k + length cs]"
    by (simp add: upt_rec [of k] del: upt_Suc)
  then show ?thesis by (simp del: upt_Suc)
qed

lemma collectIds_positions:
  assumes "\<forall>c \<in> set cs. column_id c \<notin> set objectPrototypeKeys"
    and "distinct (map fst ids)"
  shows "\<exists>ids'. collectIds ids (zip [k..<k + length cs] cs) = Inr ids'
           \<and> distinct (map fst ids')
           \<and> fst ` set ids' = fst ` set ids \<union> column_id ` set cs
           \<and> (\<forall>id. map_of ids' id =
                  (if [i \<leftarrow> [0..<length cs]. column_id (cs ! i) = id] = [] then map_of ids id
                   else Some ((case map_of ids id of None \<Rightarrow> [] | Some ps \<Rightarrow> ps)
                          @ map (\<lambda>i. k + i) [i \<leftarrow> [0..<length cs]. column_id (cs ! i) = id])))"
  using assms
proof (induction cs arbitrary: ids k)
  case Nil
  then show ?case by simp
next
  case (Cons c cs)
  define old where "old = (case map_of ids (column_id c) of None \<Rightarrow> [] | Some ps \<Rightarrow> ps)"
  define ids1 where "ids1 = AList.update (column_id c) (old @ [k]) ids"
  have rec: "recordId ids c k = Inr ids1"
    using Cons.prems(1) by (simp add: recordId_own_or_new ids1_def old_def)
  have d1: "distinct (map fst ids1)"
    using Cons.prems(2) by (simp add: ids1_def distinct_update)
  have k1: "fst ` set ids1 = insert (column_id c) (fst ` set ids)"
    by (simp add: ids1_def dom_update)
  have m1: "map_of ids1 = (map_of ids)(column_id c \<mapsto> old @ [k])"
    by (simp add: ids1_def update_conv')
  from Cons.prems(1) have "\<forall>c \<in> set cs. column_id c \<notin> set objectPrototypeKeys" by simp
  from Cons.IH [OF this d1, of "Suc k"] obtain ids' where
    run: "collectIds ids1 (zip [Suc k..<Suc k + length cs] cs) = Inr ids'"
    and d: "distinct (map fst ids')"
    and keys: "fst ` set ids' = fst ` set ids1 \<union> column_id ` set cs"
    and m: "\<And>id. map_of ids' id =
              (if [i \<leftarrow> [0..<length cs]. column_id (cs ! i) = id] = [] then map_of ids1 id
               else Some ((case map_of ids1 id of None \<Rightarrow> [] | Some ps \<Rightarrow> ps)
                      @ map (\<lambda>i. Suc k + i) [i \<leftarrow> [0..<length cs]. column_id (cs ! i) = id]))"
    by blast
  have shift: "[i \<leftarrow> [0..<length (c # cs)]. column_id ((c # cs) ! i) = id]
                 = (if column_id c = id then [0] else [])
                   @ map Suc [i \<leftarrow> [0..<length cs]. column_id (cs ! i) = id]" for id
  proof -
    have "[0..<length (c # cs)] = 0 # [Suc 0..<Suc (length cs)]"
      by (metis length_Cons upt_conv_Cons zero_less_Suc)
    then have "[0..<length (c # cs)] = 0 # map Suc [0..<length cs]"
      by (simp only: map_Suc_upt)
    then show ?thesis by (simp add: filter_map comp_def del: upt_Suc)
  qed
  have "collectIds ids (zip [k..<k + length (c # cs)] (c # cs)) = Inr ids'"
    unfolding zip_from_Cons using rec run by simp
  moreover have "fst ` set ids' = fst ` set ids \<union> column_id ` set (c # cs)"
    using keys k1 by auto
  moreover have "map_of ids' id =
      (if [i \<leftarrow> [0..<length (c # cs)]. column_id ((c # cs) ! i) = id] = [] then map_of ids id
       else Some ((case map_of ids id of None \<Rightarrow> [] | Some ps \<Rightarrow> ps)
              @ map (\<lambda>i. k + i) [i \<leftarrow> [0..<length (c # cs)]. column_id ((c # cs) ! i) = id]))"
    for id
    unfolding shift m m1 by (simp add: old_def comp_def)
  ultimately show ?case using d by blast
qed

lemma mset_objectKeys: "mset (objectKeys ids) = mset (map fst ids)"
proof -
  have "mset (objectKeys ids)
          = filter_mset isArrayIndex (mset (map fst ids))
            + filter_mset (\<lambda>k. \<not> isArrayIndex k) (mset (map fst ids))"
    by (simp add: objectKeys_def)
  then show ?thesis by (simp only: multiset_partition [symmetric])
qed

lemma mset_concat_map_cong:
  assumes "mset xs = mset ys"
  shows "mset (concat (map f xs)) = mset (concat (map f ys))"
proof -
  have "mset (concat (map f zs)) = sum_mset (image_mset (\<lambda>z. mset (f z)) (mset zs))" for zs
    by (induction zs) simp_all
  with assms show ?thesis by simp
qed

lemma concat_map_if: "concat (map (\<lambda>x. if P x then [g x] else []) xs) = map g (filter P xs)"
  by (induction xs) simp_all

text \<open>
  Then there is one warning for each identifier that more than one column has, with the
  positions of these columns and the columns themselves, and no other warning.
\<close>

lemma validateColumns_reports_shared_ids:
  assumes "\<forall>c \<in> set columns. column_id c \<notin> set objectPrototypeKeys"
  shows "\<exists>ds. validateColumns (Some columns) = Inr ds
          \<and> mset ds =
              mset (map (\<lambda>id. DuplicateColumnId id
                                [i \<leftarrow> [0..<length columns]. column_id (columns ! i) = id]
                                (map (\<lambda>i. columns ! i)
                                   [i \<leftarrow> [0..<length columns]. column_id (columns ! i) = id]))
                      (filter (\<lambda>id. 1 < length [i \<leftarrow> [0..<length columns].
                                                   column_id (columns ! i) = id])
                         (remdups (map column_id columns))))"
proof -
  let ?pos = "\<lambda>id. [i \<leftarrow> [0..<length columns]. column_id (columns ! i) = id]"
  let ?f = "\<lambda>ids id. case map_of ids id of
                        None \<Rightarrow> []
                      | Some positions \<Rightarrow>
                          if length positions > 1
                          then [DuplicateColumnId id positions
                                  (map (\<lambda>index. columns ! index) positions)]
                          else []"
  from collectIds_positions [OF assms, of "[]" 0] obtain ids where
    run: "collectIds [] (zip [0..<length columns] columns) = Inr ids"
    and d: "distinct (map fst ids)"
    and keys: "fst ` set ids = column_id ` set columns"
    and m0: "\<forall>id. map_of ids id =
                  (if ?pos id = [] then map_of [] id
                   else Some ((case map_of [] id of None \<Rightarrow> [] | Some ps \<Rightarrow> ps)
                          @ map (\<lambda>i. 0 + i) (?pos id)))"
    by auto
  have z: "map ((+) 0) ps = ps" for ps :: "nat list"
    by (induction ps) simp_all
  have m: "map_of ids id = (if ?pos id = [] then None else Some (?pos id))" for id
    using m0 by (simp add: z)
  have f: "?f ids id = (if 1 < length (?pos id)
                         then [DuplicateColumnId id (?pos id) (map (\<lambda>i. columns ! i) (?pos id))]
                         else [])" for id
    by (simp add: m)
  have "set (map fst ids) = set (remdups (map column_id columns))"
    using keys by simp
  with d have "mset (map fst ids) = mset (remdups (map column_id columns))"
    using set_eq_iff_mset_eq_distinct [of "map fst ids" "remdups (map column_id columns)"]
    by (simp only: distinct_remdups)
  then have "mset (objectKeys ids) = mset (remdups (map column_id columns))"
    by (simp only: mset_objectKeys)
  then have "mset (concat (map (?f ids) (objectKeys ids)))
               = mset (concat (map (?f ids) (remdups (map column_id columns))))"
    by (rule mset_concat_map_cong)
  also have "\<dots> = mset (map (\<lambda>id. DuplicateColumnId id (?pos id) (map (\<lambda>i. columns ! i) (?pos id)))
                       (filter (\<lambda>id. 1 < length (?pos id)) (remdups (map column_id columns))))"
    unfolding f by (simp only: concat_map_if)
  finally have "mset (concat (map (?f ids) (objectKeys ids)))
      = mset (map (\<lambda>id. DuplicateColumnId id (?pos id) (map (\<lambda>i. columns ! i) (?pos id)))
               (filter (\<lambda>id. 1 < length (?pos id)) (remdups (map column_id columns))))" .
  moreover have "validateColumns (Some columns) = Inr (concat (map (?f ids) (objectKeys ids)))"
    by (simp add: validateColumns_def run)
  ultimately show ?thesis by blast
qed

text \<open>An identifier that names an inherited property ends the first loop with an error.\<close>

lemma collectIds_throws:
  assumes "\<exists>c \<in> set cs. column_id c \<in> set objectPrototypeKeys"
    and "fst ` set ids \<inter> set objectPrototypeKeys = {}"
  shows "collectIds ids (zip [k..<k + length cs] cs) = Inl TypeError"
  using assms
proof (induction cs arbitrary: ids k)
  case Nil
  then show ?case by simp
next
  case (Cons c cs)
  show ?case
  proof (cases "column_id c \<in> set objectPrototypeKeys")
    case True
    with Cons.prems(2) have "column_id c \<notin> fst ` set ids" by blast
    then have "map_of ids (column_id c) = None" by (simp add: map_of_eq_None_iff)
    with True have "recordId ids c k = Inl TypeError" by (simp add: recordId_def)
    then show ?thesis unfolding zip_from_Cons by simp
  next
    case False
    define ids1 where "ids1 = AList.update (column_id c)
      ((case map_of ids (column_id c) of None \<Rightarrow> [] | Some ps \<Rightarrow> ps) @ [k]) ids"
    have rec: "recordId ids c k = Inr ids1"
      using False by (simp add: recordId_own_or_new ids1_def)
    have "fst ` set ids1 = insert (column_id c) (fst ` set ids)"
      by (simp add: ids1_def dom_update)
    with False Cons.prems(2) have k1: "fst ` set ids1 \<inter> set objectPrototypeKeys = {}" by simp
    from Cons.prems(1) False have "\<exists>c \<in> set cs. column_id c \<in> set objectPrototypeKeys" by auto
    from Cons.IH [OF this k1, of "Suc k"] rec show ?thesis
      unfolding zip_from_Cons by simp
  qed
qed

lemma validateColumns_throws:
  assumes "\<exists>c \<in> set columns. column_id c \<in> set objectPrototypeKeys"
  shows "validateColumns (Some columns) = Inl TypeError"
  using collectIds_throws [OF assms, of "[]" 0] by (simp add: validateColumns_def)

text \<open>
  Claim C9. \<^verbatim>\<open>validateColumns\<close> writes one warning for each identifier that several
  columns share and never throws. It does throw when a column's identifier names a
  property that the object \<^verbatim>\<open>ids\<close> inherits, such as \<^verbatim>\<open>constructor\<close> or
  \<^verbatim>\<open>toString\<close>: the inherited value is truthy and has no \<^verbatim>\<open>push\<close>, so the first
  column with such an identifier ends the call with a \<^verbatim>\<open>TypeError\<close>, and the warning
  for the identifier \<^verbatim>\<open>a\<close>, which two other columns share, is never written.
\<close>

theorem validateColumns_inherited_id_throws:
  "validateColumns (Some [plainColumn ''constructor'' None]) = Inl TypeError
   \<and> validateColumns (Some [plainColumn ''a'' None, plainColumn ''toString'' None,
        plainColumn ''a'' None]) = Inl TypeError"
  by (simp add: validateColumns_def recordId_def objectPrototypeKeys_def plainColumn_def upt_rec)

end
